theory Spec2Isabelle
  imports Complex_Main "HOL-Library.AList" "HOL-Library.Word"
begin

chapter \<open>Models of the source\<close>

section \<open>Python strings\<close>

text \<open>
  A Python \<open>str\<close> is a sequence of Unicode code points, so it is modelled as a list of
  natural numbers. \<open>S\<close> turns an Isabelle literal into such a list.

  The Unicode character database is not part of the repository. The functions that
  consult it (\<open>str.lower\<close>, \<open>unicodedata.category\<close>, \<open>str.isalnum\<close>, \<open>str.isupper\<close>)
  are written out for the ASCII range and taken from a parameter \<open>U\<close> outside it, so
  every statement below holds for whatever the database says about non-ASCII text.
  The set of whitespace code points (\<open>str.isspace\<close>, \<open>\s\<close>) is small and fixed, and is
  written out in full.
\<close>

type_synonym pystr = "nat list"

definition S :: "string \<Rightarrow> pystr" where
  "S s = map of_char s"

record unicode_db =
  u_lower :: "pystr \<Rightarrow> pystr"
  u_category :: "nat \<Rightarrow> string"
  u_isalnum :: "nat \<Rightarrow> bool"
  u_isupper :: "pystr \<Rightarrow> bool"
  u_isalpha :: "pystr \<Rightarrow> bool"

definition is_ascii :: "pystr \<Rightarrow> bool" where
  "is_ascii s = list_all (\<lambda>c. c < 128) s"

definition ascii_lower_char :: "nat \<Rightarrow> nat" where
  "ascii_lower_char c = (if 65 \<le> c \<and> c \<le> 90 then c + 32 else c)"

definition py_lower :: "unicode_db \<Rightarrow> pystr \<Rightarrow> pystr" where
  "py_lower U s = (if is_ascii s then map ascii_lower_char s else u_lower U s)"

definition py_isspace :: "nat \<Rightarrow> bool" where
  "py_isspace c =
     ((9 \<le> c \<and> c \<le> 13) \<or> (28 \<le> c \<and> c \<le> 32) \<or> c = 133 \<or> c = 160 \<or> c = 5760
      \<or> (8192 \<le> c \<and> c \<le> 8202) \<or> c = 8232 \<or> c = 8233 \<or> c = 8239 \<or> c = 8287
      \<or> c = 12288)"

definition py_lstrip :: "pystr \<Rightarrow> pystr" where
  "py_lstrip s = dropWhile py_isspace s"

definition py_rstrip :: "pystr \<Rightarrow> pystr" where
  "py_rstrip s = rev (dropWhile py_isspace (rev s))"

definition py_strip :: "pystr \<Rightarrow> pystr" where
  "py_strip s = py_rstrip (py_lstrip s)"

text \<open>The database used where a closed term is needed; it is only ever consulted on
  non-ASCII text, which the concrete inputs below do not contain.\<close>

definition ascii_db :: unicode_db where
  "ascii_db = \<lparr> u_lower = (\<lambda>s. s), u_category = (\<lambda>c. ''Cn''), u_isalnum = (\<lambda>c. False),
                u_isupper = (\<lambda>s. False), u_isalpha = (\<lambda>s. False) \<rparr>"

section \<open>Title request tracker (title\_tracker.py)\<close>

text \<open>
  Timestamps are readings of \<open>time.time()\<close>; the reading is an argument \<open>now\<close> of each
  operation and is a real number. Dictionaries are association lists read with
  \<open>map_of\<close> and written with \<open>AList.update\<close> and \<open>AList.delete\<close>; \<open>len\<close> of a
  dictionary is the length of the list. Logging, the periodic JSON save and the
  API sync do not touch the tracker's fields and are left out.
\<close>

record TitleRequest =
  player_name :: pystr
  alliance_tag :: pystr
  title_type :: pystr
  timestamp :: real
  was_granted :: bool
  granted_at :: "real option"

record PlayerTitleStats =
  ps_player_name :: pystr
  ps_alliance_tag :: pystr
  governor_id :: "pystr option"
  duke_requests :: int
  scientist_requests :: int
  architect_requests :: int
  justice_requests :: int
  duke_grants :: int
  scientist_grants :: int
  architect_grants :: int
  justice_grants :: int
  first_request :: "real option"
  last_request :: "real option"
  total_requests :: int
  total_grants :: int
  recent_request_times :: "real list"

definition new_stats :: "pystr \<Rightarrow> pystr \<Rightarrow> PlayerTitleStats" where
  "new_stats p a =
     \<lparr> ps_player_name = p, ps_alliance_tag = a, governor_id = None,
       duke_requests = 0, scientist_requests = 0, architect_requests = 0,
       justice_requests = 0, duke_grants = 0, scientist_grants = 0,
       architect_grants = 0, justice_grants = 0, first_request = None,
       last_request = None, total_requests = 0, total_grants = 0,
       recent_request_times = [] \<rparr>"

definition add_request :: "PlayerTitleStats \<Rightarrow> pystr \<Rightarrow> real \<Rightarrow> PlayerTitleStats" where
  "add_request st k ts =
     (let st1 = st\<lparr>total_requests := total_requests st + 1\<rparr>;
          st2 = (if k = S ''duke'' then st1\<lparr>duke_requests := duke_requests st1 + 1\<rparr>
                 else if k = S ''scientist''
                   then st1\<lparr>scientist_requests := scientist_requests st1 + 1\<rparr>
                 else if k = S ''architect''
                   then st1\<lparr>architect_requests := architect_requests st1 + 1\<rparr>
                 else if k = S ''justice''
                   then st1\<lparr>justice_requests := justice_requests st1 + 1\<rparr>
                 else st1);
          st3 = (if first_request st2 = None then st2\<lparr>first_request := Some ts\<rparr> else st2);
          st4 = st3\<lparr>last_request := Some ts\<rparr>;
          hour_ago = ts - 3600
      in st4\<lparr>recent_request_times :=
               filter (\<lambda>t. t > hour_ago) (recent_request_times st4) @ [ts]\<rparr>)"

definition add_grant :: "PlayerTitleStats \<Rightarrow> pystr \<Rightarrow> real \<Rightarrow> PlayerTitleStats" where
  "add_grant st k ts =
     (let st1 = st\<lparr>total_grants := total_grants st + 1\<rparr>
      in if k = S ''duke'' then st1\<lparr>duke_grants := duke_grants st1 + 1\<rparr>
         else if k = S ''scientist'' then st1\<lparr>scientist_grants := scientist_grants st1 + 1\<rparr>
         else if k = S ''architect'' then st1\<lparr>architect_grants := architect_grants st1 + 1\<rparr>
         else if k = S ''justice'' then st1\<lparr>justice_grants := justice_grants st1 + 1\<rparr>
         else st1)"

record tracker =
  player_stats :: "(pystr \<times> PlayerTitleStats) list"
  recent_requests :: "TitleRequest list"
  seen_messages :: "(pystr \<times> real) list"
  seen_messages_ttl :: real
  session_requests :: int
  session_grants :: int

text \<open>The tracker as \<open>__init__\<close> leaves it when no statistics file exists.\<close>

definition new_tracker :: tracker where
  "new_tracker =
     \<lparr> player_stats = [], recent_requests = [], seen_messages = [],
       seen_messages_ttl = 3600, session_requests = 0, session_grants = 0 \<rparr>"

definition normalize_name :: "unicode_db \<Rightarrow> pystr \<Rightarrow> pystr" where
  "normalize_name U name = py_strip (py_lower U name)"

text \<open>\<open>md5\<close> stands for \<open>hashlib.md5(content.encode()).hexdigest()\<close>, a library function;
  it is a parameter, and nothing below assumes it to be injective.\<close>

definition get_message_hash ::
  "unicode_db \<Rightarrow> (pystr \<Rightarrow> pystr) \<Rightarrow> pystr \<Rightarrow> pystr \<Rightarrow> pystr" where
  "get_message_hash U md5 p k = md5 (normalize_name U p @ S '':'' @ py_lower U k)"

definition cleanup_seen_messages :: "real \<Rightarrow> tracker \<Rightarrow> tracker" where
  "cleanup_seen_messages current_time s =
     (let cutoff = current_time - seen_messages_ttl s
      in s\<lparr>seen_messages := filter (\<lambda>(k, v). v > cutoff) (seen_messages s)\<rparr>)"

definition reset_seen_messages :: "tracker \<Rightarrow> tracker" where
  "reset_seen_messages s = s\<lparr>seen_messages := []\<rparr>"

definition clear_player_from_seen ::
  "unicode_db \<Rightarrow> (pystr \<Rightarrow> pystr) \<Rightarrow> tracker \<Rightarrow> pystr \<Rightarrow> pystr option \<Rightarrow> tracker" where
  "clear_player_from_seen U md5 s p title =
     (case title of
        Some k \<Rightarrow>
          (if k \<noteq> [] then
             s\<lparr>seen_messages := AList.delete (get_message_hash U md5 p k) (seen_messages s)\<rparr>
           else
             s\<lparr>seen_messages :=
                 fold (\<lambda>t sm. AList.delete (get_message_hash U md5 p t) sm)
                   [S ''duke'', S ''scientist'', S ''architect'', S ''justice'']
                   (seen_messages s)\<rparr>)
      | None \<Rightarrow>
          s\<lparr>seen_messages :=
              fold (\<lambda>t sm. AList.delete (get_message_hash U md5 p t) sm)
                [S ''duke'', S ''scientist'', S ''architect'', S ''justice'']
                (seen_messages s)\<rparr>)"

text \<open>The status message is kept structured: the rendered f-string only formats these
  fields.\<close>

datatype track_message =
  AlreadySeen pystr pystr real
  | Tracked pystr pystr pystr

definition track_request ::
  "unicode_db \<Rightarrow> (pystr \<Rightarrow> pystr) \<Rightarrow> real \<Rightarrow> tracker \<Rightarrow> pystr \<Rightarrow> pystr \<Rightarrow> pystr
     \<Rightarrow> (bool \<times> track_message) \<times> tracker" where
  "track_request U md5 now s p a k =
     (let ts = now;
          normalized_name = normalize_name U p;
          msg_hash = get_message_hash U md5 p k;
          s1 = (if length (seen_messages s) > 100 then cleanup_seen_messages ts s else s)
      in case map_of (seen_messages s1) msg_hash of
           Some first_seen \<Rightarrow> ((False, AlreadySeen p k ((ts - first_seen) / 60)), s1)
         | None \<Rightarrow>
            (let s2 = s1\<lparr>seen_messages := AList.update msg_hash ts (seen_messages s1)\<rparr>;
                 cutoff = ts - 120;
                 request = \<lparr> player_name = p, alliance_tag = a, title_type = k,
                             timestamp = ts, was_granted = False, granted_at = None \<rparr>;
                 s3 = s2\<lparr>recent_requests :=
                          filter (\<lambda>r. timestamp r > cutoff) (recent_requests s2) @ [request]\<rparr>;
                 stats0 = (case map_of (player_stats s3) normalized_name of
                             None \<Rightarrow> new_stats p a
                           | Some st \<Rightarrow> st);
                 stats1 = (if a \<noteq> [] \<and> a \<noteq> ps_alliance_tag stats0
                           then stats0\<lparr>ps_alliance_tag := a\<rparr> else stats0);
                 stats2 = add_request stats1 k ts;
                 s4 = s3\<lparr>player_stats := AList.update normalized_name stats2 (player_stats s3)\<rparr>;
                 s5 = s4\<lparr>session_requests := session_requests s4 + 1\<rparr>
             in ((True, Tracked a p k), s5)))"

text \<open>The loop over \<open>reversed(self.recent_requests)\<close> that marks the first match and
  breaks.\<close>

fun mark_first :: "('a \<Rightarrow> bool) \<Rightarrow> ('a \<Rightarrow> 'a) \<Rightarrow> 'a list \<Rightarrow> 'a list" where
  "mark_first P f [] = []"
| "mark_first P f (r # rs) = (if P r then f r # rs else r # mark_first P f rs)"

definition record_grant ::
  "unicode_db \<Rightarrow> (pystr \<Rightarrow> pystr) \<Rightarrow> real \<Rightarrow> tracker \<Rightarrow> pystr \<Rightarrow> pystr \<Rightarrow> bool \<times> tracker" where
  "record_grant U md5 now s p k =
     (let normalized_name = normalize_name U p
      in case map_of (player_stats s) normalized_name of
           None \<Rightarrow> (False, s)
         | Some stats \<Rightarrow>
            (let s1 = s\<lparr>player_stats :=
                         AList.update normalized_name (add_grant stats k now) (player_stats s)\<rparr>;
                 s2 = s1\<lparr>recent_requests :=
                         rev (mark_first
                                (\<lambda>req. normalize_name U (player_name req) = normalized_name
                                        \<and> title_type req = k \<and> \<not> was_granted req)
                                (\<lambda>req. req\<lparr>was_granted := True, granted_at := Some now\<rparr>)
                                (rev (recent_requests s1)))\<rparr>;
                 s3 = s2\<lparr>session_grants := session_grants s2 + 1\<rparr>;
                 msg_hash = get_message_hash U md5 p k
             in (True, s3\<lparr>seen_messages := AList.delete msg_hash (seen_messages s3)\<rparr>)))"

text \<open>Concrete trackers used to exercise the statements below. \<open>demo_hash\<close> stands in
  for the digest function, which the general statements leave arbitrary.\<close>

definition demo_hash :: "pystr \<Rightarrow> pystr" where
  "demo_hash content = content"

definition demo_tracker1 :: tracker where
  "demo_tracker1 =
     snd (track_request ascii_db demo_hash 0 new_tracker (S ''WATUZI'') (S ''F28A'') (S ''scientist''))"

definition demo_tracker2 :: tracker where
  "demo_tracker2 =
     snd (track_request ascii_db demo_hash 10 demo_tracker1 (S ''WATUZI'') (S ''F28A'') (S ''scientist''))"

definition demo_tracker3 :: tracker where
  "demo_tracker3 =
     snd (track_request ascii_db demo_hash 4000 demo_tracker2 (S ''WATUZI'') (S ''F28A'') (S ''scientist''))"

text \<open>A tracker whose seen-cache already holds 101 entries, all recorded at time 0 under
  one-character keys.\<close>

definition crowded_tracker :: tracker where
  "crowded_tracker = new_tracker\<lparr>seen_messages := map (\<lambda>i. ([i], 0)) [0..<101]\<rparr>"

definition crowded_tracker1 :: tracker where
  "crowded_tracker1 =
     snd (track_request ascii_db demo_hash 0 crowded_tracker (S ''WATUZI'') (S ''F28A'') (S ''scientist''))"

definition crowded_tracker2 :: tracker where
  "crowded_tracker2 =
     snd (track_request ascii_db demo_hash 10 crowded_tracker1 (S ''WATUZI'') (S ''F28A'') (S ''scientist''))"

definition crowded_tracker3 :: tracker where
  "crowded_tracker3 =
     snd (track_request ascii_db demo_hash 4000 crowded_tracker2 (S ''WATUZI'') (S ''F28A'') (S ''scientist''))"

section \<open>Chat parser: title extraction (vision\_system.py)\<close>

text \<open>Python's substring test \<open>needle in haystack\<close>.\<close>

fun py_in :: "pystr \<Rightarrow> pystr \<Rightarrow> bool" where
  "py_in needle [] = (needle = [])"
| "py_in needle (c # cs) = (take (length needle) (c # cs) = needle \<or> py_in needle cs)"

definition extract_title_type :: "unicode_db \<Rightarrow> pystr \<Rightarrow> pystr" where
  "extract_title_type U message =
     (let msg_lower = py_lower U message
      in if py_in (S ''justice'') msg_lower \<or> py_in (S ''jus'') msg_lower then S ''justice''
         else if py_in (S ''duke'') msg_lower \<or> py_in (S ''duk'') msg_lower then S ''duke''
         else if py_in (S ''architect'') msg_lower \<or> py_in (S ''arch'') msg_lower
           then S ''architect''
         else if py_in (S ''scientist'') msg_lower \<or> py_in (S ''sci'') msg_lower
           then S ''scientist''
         else S ''scientist'')"

section \<open>Game states and recovery actions (game\_state.py)\<close>

datatype GameState =
  IDLE_MAP | MAP_CITY_VIEW | MAP_SEARCHING
  | GOVERNOR_PROFILE | GOVERNOR_MORE_INFO | GOVERNOR_KILLS | OWN_PROFILE
  | RANKINGS_POWER | RANKINGS_KILLPOINTS | RANKINGS_ALLIANCE | RANKINGS_CITY_HALL
  | ALLIANCE_PANEL | ALLIANCE_MEMBERS | ALLIANCE_TERRITORY
  | BOTTOM_MENU | SETTINGS | MAIL | CHAT_EXPANDED | CHAT_COLLAPSED
  | EXIT_MENU | CONFIRMATION_POPUP | TITLE_POPUP | EVENT_POPUP | STORE_POPUP | REWARD_POPUP
  | CONNECTION_ERROR | LOADING_SCREEN | BLACK_SCREEN | FROZEN
  | UNKNOWN | TRANSITIONING

datatype pyval = VStr string | VBool bool

record StateDetectionResult =
  state :: GameState
  confidence :: real
  details :: "(string \<times> pyval) list"
  suggested_action :: "string option"
  recovery_steps :: "string list option"

datatype py_error = AttributeError | ValueError

text \<open>One step of an \<open>escape_sequence\<close>: the tuples \<open>("key", k)\<close>, \<open>("tap", pos)\<close> and
  \<open>("wait", d)\<close>.\<close>

datatype step = StepKey string | StepTap "int \<times> int" | StepWait real

text \<open>The dictionary \<open>get_recovery_action\<close> returns; a key that is absent is \<open>None\<close>.\<close>

record recovery_action =
  action :: string
  position :: "(int \<times> int) option"
  key :: "string option"
  duration :: "real option"
  steps :: "step list option"
  description :: string

definition plain_action :: "string \<Rightarrow> string \<Rightarrow> recovery_action" where
  "plain_action a d =
     \<lparr> action = a, position = None, key = None, duration = None, steps = None,
       description = d \<rparr>"

definition get_recovery_action :: "GameState \<Rightarrow> recovery_action" where
  "get_recovery_action st =
     (case st of
        EXIT_MENU \<Rightarrow>
          (plain_action ''tap'' ''Click CANCEL on exit menu'')\<lparr>position := Some (779, 457)\<rparr>
      | CONNECTION_ERROR \<Rightarrow>
          (plain_action ''tap'' ''Click OK/Retry on error popup'')\<lparr>position := Some (800, 500)\<rparr>
      | CONFIRMATION_POPUP \<Rightarrow>
          (plain_action ''tap'' ''Click Cancel on confirmation'')\<lparr>position := Some (700, 450)\<rparr>
      | LOADING_SCREEN \<Rightarrow>
          (plain_action ''wait'' ''Wait for loading to complete'')\<lparr>duration := Some 3\<rparr>
      | BLACK_SCREEN \<Rightarrow>
          (plain_action ''wait_and_check'' ''Wait and check if game responds'')
            \<lparr>duration := Some 5\<rparr>
      | UNKNOWN \<Rightarrow>
          (plain_action ''escape_sequence'' ''Try escape sequence to recover'')
            \<lparr>steps := Some [StepKey ''KEYCODE_ESCAPE'', StepWait (3 / 10),
                             StepTap (800, 450), StepWait (3 / 10)]\<rparr>
      | GOVERNOR_PROFILE \<Rightarrow>
          (plain_action ''tap'' ''Close governor profile'')\<lparr>position := Some (1050, 180)\<rparr>
      | RANKINGS_POWER \<Rightarrow> plain_action ''ready'' ''On rankings - ready to scan''
      | IDLE_MAP \<Rightarrow> plain_action ''ready'' ''On map - ready for commands''
      | _ \<Rightarrow> plain_action ''unknown'' ''No specific recovery action'')"

section \<open>The device\<close>

text \<open>
  What the program sends to the emulator, in order: key events, taps, sleeps and screen
  captures. The device is a parameter: \<open>dev_frame\<close> gives the frame a capture returns
  after a given history (\<open>None\<close> when the capture fails), and \<open>dev_raises\<close> says whether
  a command issued after a given history raises. Nothing is assumed about either, so
  the device may react to the program's actions in any way.
\<close>

datatype adb_event = EvKey string | EvTap "int \<times> int" | EvSleep real | EvScreencap

record 'f device =
  dev_frame :: "adb_event list \<Rightarrow> 'f option"
  dev_raises :: "adb_event list \<Rightarrow> adb_event \<Rightarrow> bool"

section \<open>IntelligentRecovery (game\_state.py)\<close>

text \<open>The loop over the steps of an escape sequence; an exception leaves the loop and is
  caught by \<open>_execute_action\<close>, which then returns \<open>False\<close>. \<open>time.sleep\<close> raises on a
  negative duration.\<close>

fun run_steps :: "'f device \<Rightarrow> step list \<Rightarrow> adb_event list \<Rightarrow> bool \<times> adb_event list" where
  "run_steps D [] tr = (True, tr)"
| "run_steps D (StepKey k # sts) tr =
     (if dev_raises D tr (EvKey k) then (False, tr @ [EvKey k])
      else run_steps D sts (tr @ [EvKey k]))"
| "run_steps D (StepTap p # sts) tr =
     (if dev_raises D tr (EvTap p) then (False, tr @ [EvTap p])
      else run_steps D sts (tr @ [EvTap p]))"
| "run_steps D (StepWait d # sts) tr =
     (if d < 0 then (False, tr) else run_steps D sts (tr @ [EvSleep d]))"

definition execute_action ::
  "'f device \<Rightarrow> recovery_action \<Rightarrow> adb_event list \<Rightarrow> bool \<times> adb_event list" where
  "execute_action D act tr =
     (if action act = ''tap'' then
        (case position act of
           Some pos \<Rightarrow> (\<not> dev_raises D tr (EvTap pos), tr @ [EvTap pos])
         | None \<Rightarrow> (False, tr))
      else if action act = ''key'' then
        (case key act of
           Some k \<Rightarrow> (if k \<noteq> [] then (\<not> dev_raises D tr (EvKey k), tr @ [EvKey k])
                      else (False, tr))
         | None \<Rightarrow> (False, tr))
      else if action act = ''wait'' then
        (let d = (case duration act of Some d \<Rightarrow> d | None \<Rightarrow> 1)
         in if d < 0 then (False, tr) else (True, tr @ [EvSleep d]))
      else if action act = ''wait_and_check'' then
        (let d = (case duration act of Some d \<Rightarrow> d | None \<Rightarrow> 3)
         in if d < 0 then (False, tr) else (True, tr @ [EvSleep d]))
      else if action act = ''escape_sequence'' then
        run_steps D (case steps act of Some sts \<Rightarrow> sts | None \<Rightarrow> []) tr
      else if action act = ''ready'' then (True, tr)
      else (False, tr))"



section \<open>TitleBot escape handling and idle check (title\_bot.py)\<close>

text \<open>
  The visual predicates of the title bot (\<open>StateDetector.detect_state\<close> against the
  reference images, \<open>has_popup\<close>, \<open>is_exit_popup\<close>) are parameters: the statements about
  the control flow hold for whatever they answer. \<open>ADBHelper.tap\<close> sleeps after the
  tap and \<open>press_escape\<close> sleeps 0.3 s after the key; adb commands are taken to return.
\<close>

record 'f vision =
  detect_ref :: "'f \<Rightarrow> string \<times> real"
  has_popup :: "'f \<Rightarrow> bool"
  is_exit_popup :: "'f \<Rightarrow> bool"

definition exit_cancel :: "int \<times> int" where
  "exit_cancel = (665, 505)"

definition press_escape :: "adb_event list \<Rightarrow> adb_event list" where
  "press_escape tr = tr @ [EvKey ''KEYCODE_ESCAPE'', EvSleep (3 / 10)]"

definition handle_exit_popup ::
  "'f device \<Rightarrow> 'f vision \<Rightarrow> adb_event list \<Rightarrow> bool \<times> adb_event list" where
  "handle_exit_popup D V tr =
     (case dev_frame D tr of
        None \<Rightarrow> (False, tr @ [EvScreencap])
      | Some screen \<Rightarrow>
          (if is_exit_popup V screen
           then (True, tr @ [EvScreencap, EvTap exit_cancel, EvSleep (1 / 2)])
           else (False, tr @ [EvScreencap])))"

definition safe_escape :: "'f device \<Rightarrow> 'f vision \<Rightarrow> adb_event list \<Rightarrow> adb_event list" where
  "safe_escape D V tr = snd (handle_exit_popup D V (press_escape tr @ [EvSleep (3 / 10)]))"



text \<open>The events that reach the game as input: key events and taps.\<close>

fun is_input :: "adb_event \<Rightarrow> bool" where
  "is_input (EvKey k) = True"
| "is_input (EvTap p) = True"
| "is_input (EvSleep d) = False"
| "is_input EvScreencap = False"

text \<open>A device on which escape opens the exit dialog: the frame shows \<open>EXIT_MENU\<close> when
  the last input was the escape key, and an unrecognised screen otherwise. Frames are
  the states they show, and the classifier reads the state off the frame.\<close>

definition last_input :: "adb_event list \<Rightarrow> adb_event option" where
  "last_input tr = (case filter is_input tr of [] \<Rightarrow> None | e # es \<Rightarrow> Some (last (e # es)))"

definition exit_dialog_device :: "GameState device" where
  "exit_dialog_device =
     \<lparr> dev_frame = (\<lambda>tr. if last_input tr = Some (EvKey ''KEYCODE_ESCAPE'')
                          then Some EXIT_MENU else Some UNKNOWN),
       dev_raises = (\<lambda>tr e. False) \<rparr>"


definition exit_dialog_vision :: "GameState vision" where
  "exit_dialog_vision =
     \<lparr> detect_ref = (\<lambda>f. (if f = IDLE_MAP then ''idle'' else ''unknown'', 1)),
       has_popup = (\<lambda>f. f = EXIT_MENU),
       is_exit_popup = (\<lambda>f. f = EXIT_MENU) \<rparr>"

section \<open>State classifier (game\_state.py)\<close>

text \<open>
  A well-formed frame is the 900 x 1600 x 3 array of unsigned bytes that the capture
  delivers: a function from row, column and channel (0 = blue, 1 = green, 2 = red) to
  a byte. The argument of \<open>detect_state\<close> can also be \<open>None\<close> (a failed capture) or the
  zero-dimensional array \<open>np.array(None)\<close> that \<open>recover_to_idle\<close> builds from a failed
  capture.

  numpy's float64 statistics are read as exact real arithmetic: a mean is the sum of
  the entries over their number, a variance the mean squared deviation, a standard
  deviation its square root. A comparison that float64 rounding decides, such as a
  centre brightness of exactly one and a half times the overall brightness in
  \<open>_is_connection_error\<close>, can come out differently in the code; no statement below
  rests on such a boundary case.
\<close>

type_synonym frame = "nat \<Rightarrow> nat \<Rightarrow> nat \<Rightarrow> 8 word"

datatype screen = PyNone | ZeroDim | Ndarray frame

definition px :: "frame \<Rightarrow> nat \<Rightarrow> nat \<Rightarrow> nat \<Rightarrow> real" where
  "px f y x c = real (unat (f y x c))"

text \<open>Statistics of a single-channel image \<open>g\<close> over the slice \<open>[y0:y1, x0:x1]\<close>.\<close>

definition region_mean :: "(nat \<Rightarrow> nat \<Rightarrow> real) \<Rightarrow> nat \<Rightarrow> nat \<Rightarrow> nat \<Rightarrow> nat \<Rightarrow> real" where
  "region_mean g y0 y1 x0 x1 =
     (\<Sum>y = y0..<y1. \<Sum>x = x0..<x1. g y x) / real ((y1 - y0) * (x1 - x0))"

definition region_var :: "(nat \<Rightarrow> nat \<Rightarrow> real) \<Rightarrow> nat \<Rightarrow> nat \<Rightarrow> nat \<Rightarrow> nat \<Rightarrow> real" where
  "region_var g y0 y1 x0 x1 =
     region_mean (\<lambda>y x. (g y x - region_mean g y0 y1 x0 x1)\<^sup>2) y0 y1 x0 x1"

definition region_std :: "(nat \<Rightarrow> nat \<Rightarrow> real) \<Rightarrow> nat \<Rightarrow> nat \<Rightarrow> nat \<Rightarrow> nat \<Rightarrow> real" where
  "region_std g y0 y1 x0 x1 = sqrt (region_var g y0 y1 x0 x1)"

text \<open>Statistics over all three channels of the slice (\<open>np.mean\<close>, \<open>np.std\<close> of a
  colour region).\<close>

definition mean3 :: "frame \<Rightarrow> nat \<Rightarrow> nat \<Rightarrow> nat \<Rightarrow> nat \<Rightarrow> real" where
  "mean3 f y0 y1 x0 x1 =
     (\<Sum>y = y0..<y1. \<Sum>x = x0..<x1. px f y x 0 + px f y x 1 + px f y x 2)
       / real ((y1 - y0) * (x1 - x0) * 3)"

definition var3 :: "frame \<Rightarrow> nat \<Rightarrow> nat \<Rightarrow> nat \<Rightarrow> nat \<Rightarrow> real" where
  "var3 f y0 y1 x0 x1 =
     (let m = mean3 f y0 y1 x0 x1
      in (\<Sum>y = y0..<y1. \<Sum>x = x0..<x1.
            (px f y x 0 - m)\<^sup>2 + (px f y x 1 - m)\<^sup>2 + (px f y x 2 - m)\<^sup>2)
           / real ((y1 - y0) * (x1 - x0) * 3))"

definition chan :: "frame \<Rightarrow> nat \<Rightarrow> nat \<Rightarrow> nat \<Rightarrow> real" where
  "chan f c = (\<lambda>y x. px f y x c)"

text \<open>
  The OpenCV functions are not part of the repository and are parameters: the grey value
  and the HSV triple that \<open>cv2.cvtColor\<close> computes from the blue, green and red bytes of a
  pixel, and the outcome of matching the exit-menu template against the frame (the
  template file may be absent, and \<open>cv2.matchTemplate\<close> may raise).
\<close>

datatype template_result = Absent | MaxVal real | CvError

record cv_env =
  bgr2gray :: "nat \<Rightarrow> nat \<Rightarrow> nat \<Rightarrow> nat"
  bgr2hsv :: "nat \<Rightarrow> nat \<Rightarrow> nat \<Rightarrow> nat \<times> nat \<times> nat"
  exit_menu_template :: "frame \<Rightarrow> template_result"

definition gray :: "cv_env \<Rightarrow> frame \<Rightarrow> nat \<Rightarrow> nat \<Rightarrow> real" where
  "gray E f = (\<lambda>y x. real (bgr2gray E (unat (f y x 0)) (unat (f y x 1)) (unat (f y x 2))))"

definition is_black_screen :: "frame \<Rightarrow> bool" where
  "is_black_screen f = (mean3 f 0 900 0 1600 < 15)"

definition is_loading :: "cv_env \<Rightarrow> frame \<Rightarrow> bool" where
  "is_loading E f =
     (let variance = region_var (gray E f) 400 500 750 850;
          mean_center = mean3 f 400 500 750 850
      in variance > 2000 \<and> mean_center > 100)"

definition is_connection_error :: "frame \<Rightarrow> bool" where
  "is_connection_error f =
     (let overall_brightness = mean3 f 0 900 0 1600
      in if overall_brightness > 100 then False
         else (let center_brightness = mean3 f 300 600 400 1200
               in if center_brightness < overall_brightness + 30 then False
                  else center_brightness > overall_brightness * (15 / 10)))"

definition is_exit_menu :: "cv_env \<Rightarrow> frame \<Rightarrow> bool" where
  "is_exit_menu E f =
     (case exit_menu_template E f of
        CvError \<Rightarrow> False
      | t \<Rightarrow>
         (if (case t of MaxVal max_val \<Rightarrow> max_val > 7 / 10 | _ \<Rightarrow> False) then True
          else
            (let has_notice_color =
                   (60 < region_mean (chan f 0) 200 280 550 750
                    \<and> region_mean (chan f 0) 200 280 550 750 < 120
                    \<and> 130 < region_mean (chan f 1) 200 280 550 750
                    \<and> region_mean (chan f 1) 200 280 550 750 < 200
                    \<and> 110 < region_mean (chan f 2) 200 280 550 750
                    \<and> region_mean (chan f 2) 200 280 550 750 < 180);
                 has_cancel =
                   (80 < region_mean (chan f 0) 430 490 700 860
                    \<and> region_mean (chan f 0) 430 490 700 860 < 150
                    \<and> 150 < region_mean (chan f 1) 430 490 700 860
                    \<and> region_mean (chan f 1) 430 490 700 860 < 220
                    \<and> 150 < region_mean (chan f 2) 430 490 700 860
                    \<and> region_mean (chan f 2) 430 490 700 860 < 220);
                 center_brightness = region_mean (gray E f) 200 500 450 850;
                 center_uniformity = region_std (gray E f) 200 500 450 850;
                 has_popup_structure = (center_brightness > 120 \<and> center_uniformity < 60)
             in (has_notice_color \<and> has_cancel) \<and> has_popup_structure)))"

definition in_gold_range :: "nat \<times> nat \<times> nat \<Rightarrow> bool" where
  "in_gold_range hsv =
     (case hsv of (h, s, v) \<Rightarrow>
        15 \<le> h \<and> h \<le> 35 \<and> 100 \<le> s \<and> s \<le> 255 \<and> 100 \<le> v \<and> v \<le> 255)"

definition is_rankings_screen :: "cv_env \<Rightarrow> frame \<Rightarrow> bool" where
  "is_rankings_screen E f =
     (let gold_ratio =
            real (\<Sum>y = 50..<150. \<Sum>x = 100..<500.
                    if in_gold_range (bgr2hsv E (unat (f y x 0)) (unat (f y x 1)) (unat (f y x 2)))
                    then 1 else 0 :: nat)
              / real (100 * 400 :: nat);
          list_std = region_std (gray E f) 250 600 300 1300;
          has_list_structure = (list_std > 40)
      in gold_ratio > 3 / 100 \<and> has_list_structure)"

definition is_governor_profile :: "frame \<Rightarrow> bool" where
  "is_governor_profile f =
     (let close_brightness = mean3 f 60 100 1020 1070
      in if close_brightness < 145 then False
         else (let panel_brightness = mean3 f 100 400 800 1100;
                   panel_std = sqrt (var3 f 100 400 800 1100)
               in panel_brightness > 100 \<and> panel_std > 30))"

definition is_on_map :: "frame \<Rightarrow> bool" where
  "is_on_map f =
     (let mean_brightness = mean3 f 830 900 0 1600;
          color_variance = region_std (chan f 0) 830 900 0 1600
                           + region_std (chan f 1) 830 900 0 1600
                           + region_std (chan f 2) 830 900 0 1600
      in 40 < mean_brightness \<and> mean_brightness < 160 \<and> color_variance > 80)"

definition is_chat_expanded :: "frame \<Rightarrow> bool" where
  "is_chat_expanded f =
     (region_mean (chan f 0) 100 500 50 400 > 40
      \<and> region_mean (chan f 1) 100 500 50 400 > 40
      \<and> region_mean (chan f 2) 100 500 50 400 > 40)"

definition detect_ranking_type :: "frame \<Rightarrow> GameState" where
  "detect_ranking_type f =
     (let max_brightness0 = 0;
          detected_type0 = RANKINGS_POWER;
          brightness1 = mean3 f 140 180 300 400;
          (max_brightness1, detected_type1) =
             (if brightness1 > max_brightness0 then (brightness1, RANKINGS_POWER)
              else (max_brightness0, detected_type0));
          brightness2 = mean3 f 140 180 450 550
      in if brightness2 > max_brightness1 then RANKINGS_KILLPOINTS else detected_type1)"

text \<open>The name of an enumeration member, as \<open>chat_state.name\<close> and \<open>ranking_type.name\<close>
  give it.\<close>

fun state_name :: "GameState \<Rightarrow> string" where
  "state_name IDLE_MAP = ''IDLE_MAP''"
| "state_name MAP_CITY_VIEW = ''MAP_CITY_VIEW''"
| "state_name MAP_SEARCHING = ''MAP_SEARCHING''"
| "state_name GOVERNOR_PROFILE = ''GOVERNOR_PROFILE''"
| "state_name GOVERNOR_MORE_INFO = ''GOVERNOR_MORE_INFO''"
| "state_name GOVERNOR_KILLS = ''GOVERNOR_KILLS''"
| "state_name OWN_PROFILE = ''OWN_PROFILE''"
| "state_name RANKINGS_POWER = ''RANKINGS_POWER''"
| "state_name RANKINGS_KILLPOINTS = ''RANKINGS_KILLPOINTS''"
| "state_name RANKINGS_ALLIANCE = ''RANKINGS_ALLIANCE''"
| "state_name RANKINGS_CITY_HALL = ''RANKINGS_CITY_HALL''"
| "state_name ALLIANCE_PANEL = ''ALLIANCE_PANEL''"
| "state_name ALLIANCE_MEMBERS = ''ALLIANCE_MEMBERS''"
| "state_name ALLIANCE_TERRITORY = ''ALLIANCE_TERRITORY''"
| "state_name BOTTOM_MENU = ''BOTTOM_MENU''"
| "state_name SETTINGS = ''SETTINGS''"
| "state_name MAIL = ''MAIL''"
| "state_name CHAT_EXPANDED = ''CHAT_EXPANDED''"
| "state_name CHAT_COLLAPSED = ''CHAT_COLLAPSED''"
| "state_name EXIT_MENU = ''EXIT_MENU''"
| "state_name CONFIRMATION_POPUP = ''CONFIRMATION_POPUP''"
| "state_name TITLE_POPUP = ''TITLE_POPUP''"
| "state_name EVENT_POPUP = ''EVENT_POPUP''"
| "state_name STORE_POPUP = ''STORE_POPUP''"
| "state_name REWARD_POPUP = ''REWARD_POPUP''"
| "state_name CONNECTION_ERROR = ''CONNECTION_ERROR''"
| "state_name LOADING_SCREEN = ''LOADING_SCREEN''"
| "state_name BLACK_SCREEN = ''BLACK_SCREEN''"
| "state_name FROZEN = ''FROZEN''"
| "state_name UNKNOWN = ''UNKNOWN''"
| "state_name TRANSITIONING = ''TRANSITIONING''"

text \<open>\<open>detect_state\<close>. The first statement, \<open>h, w = screen.shape[:2]\<close>, raises
  \<open>AttributeError\<close> on \<open>None\<close> and \<open>ValueError\<close> on a zero-dimensional array; nothing in
  \<open>detect_state\<close> catches it.\<close>

definition detect_frame :: "cv_env \<Rightarrow> frame \<Rightarrow> StateDetectionResult" where
  "detect_frame E f =
     (if is_black_screen f then
        \<lparr> state = BLACK_SCREEN, confidence = 95 / 100,
          details = [(''reason'', VStr ''Screen is mostly black'')],
          suggested_action = Some ''wait_or_restart'',
          recovery_steps = Some [''Wait 5 seconds'', ''If still black, restart game''] \<rparr>
      else if is_loading E f then
        \<lparr> state = LOADING_SCREEN, confidence = 85 / 100,
          details = [(''reason'', VStr ''Loading indicator detected'')],
          suggested_action = Some ''wait'',
          recovery_steps = Some [''Wait for loading to complete''] \<rparr>
      else if is_connection_error f then
        \<lparr> state = CONNECTION_ERROR, confidence = 90 / 100,
          details = [(''reason'', VStr ''Connection error popup detected'')],
          suggested_action = Some ''click_ok'',
          recovery_steps = Some [''Click OK/Retry button'', ''Wait and retry''] \<rparr>
      else if is_exit_menu E f then
        \<lparr> state = EXIT_MENU, confidence = 95 / 100,
          details = [(''reason'', VStr ''Exit menu detected'')],
          suggested_action = Some ''click_cancel'',
          recovery_steps = Some [''Click CANCEL button at (779, 457)''] \<rparr>
      else if is_governor_profile f then
        \<lparr> state = GOVERNOR_PROFILE, confidence = 85 / 100,
          details = [(''reason'', VStr ''Governor profile detected'')],
          suggested_action = Some ''read_stats_or_close'',
          recovery_steps = None \<rparr>
      else if is_rankings_screen E f then
        (let ranking_type = detect_ranking_type f
         in \<lparr> state = ranking_type, confidence = 85 / 100,
              details = [(''ranking_type'', VStr (state_name ranking_type))],
              suggested_action = Some ''continue_scan'',
              recovery_steps = None \<rparr>)
      else if is_on_map f then
        (let chat_state = (if is_chat_expanded f then CHAT_EXPANDED else CHAT_COLLAPSED)
         in \<lparr> state = IDLE_MAP, confidence = 80 / 100,
              details = [(''chat_state'', VStr (state_name chat_state)),
                         (''bottom_menu_visible'', VBool True)],
              suggested_action = Some ''ready_for_commands'',
              recovery_steps = None \<rparr>)
      else
        \<lparr> state = UNKNOWN, confidence = 3 / 10,
          details = [(''reason'', VStr ''Could not determine state'')],
          suggested_action = Some ''try_recovery'',
          recovery_steps = Some [''Press ESC to close popups'', ''Click on empty map areas'',
                                 ''If stuck, restart navigation''] \<rparr>)"

definition detect_state :: "cv_env \<Rightarrow> screen \<Rightarrow> py_error + StateDetectionResult" where
  "detect_state E scr =
     (case scr of
        PyNone \<Rightarrow> Inl AttributeError
      | ZeroDim \<Rightarrow> Inl ValueError
      | Ndarray f \<Rightarrow> Inr (detect_frame E f))"

text \<open>
  Test frames: vertical stripes one pixel wide. Every even column has the colour
  \<open>(b, g, r)\<close> and every odd column is brighter by \<open>amp\<close> in each channel.
\<close>

definition striped_frame :: "nat \<Rightarrow> nat \<Rightarrow> nat \<Rightarrow> nat \<Rightarrow> frame" where
  "striped_frame b g r amp =
     (\<lambda>y x c. of_nat ((if c = 0 then b else if c = 1 then g else r)
                       + (if odd x then amp else 0)))"

text \<open>The environment of the test frames: no template file is installed, and the grey
  value is OpenCV's fixed-point weighting of the three bytes. The HSV conversion is not
  reached on the test frames.\<close>

definition demo_cv :: cv_env where
  "demo_cv =
     \<lparr> bgr2gray = (\<lambda>b g r. (b * 3735 + g * 19235 + r * 9798 + 16384) div 32768),
       bgr2hsv = (\<lambda>b g r. (0, 0, 0)),
       exit_menu_template = (\<lambda>f. Absent) \<rparr>"

definition loading_exit_frame :: frame where
  "loading_exit_frame = striped_frame 50 120 110 100"

definition exit_map_frame :: frame where
  "exit_map_frame = striped_frame 60 130 120 80"




section \<open>Chat parser: OCR cleaning (vision\_system.py)\<close>

text \<open>\<open>unicodedata.category\<close>: the ASCII rows of the Unicode table, and the parameter
  \<open>U\<close> beyond them.\<close>

definition ascii_category :: "nat \<Rightarrow> string" where
  "ascii_category c =
     (if c < 32 \<or> c = 127 then ''Cc''
      else if c = 32 then ''Zs''
      else if 48 \<le> c \<and> c \<le> 57 then ''Nd''
      else if 65 \<le> c \<and> c \<le> 90 then ''Lu''
      else if 97 \<le> c \<and> c \<le> 122 then ''Ll''
      else if c = 36 then ''Sc''
      else if c = 40 \<or> c = 91 \<or> c = 123 then ''Ps''
      else if c = 41 \<or> c = 93 \<or> c = 125 then ''Pe''
      else if c = 43 \<or> c = 60 \<or> c = 61 \<or> c = 62 \<or> c = 124 \<or> c = 126 then ''Sm''
      else if c = 45 then ''Pd''
      else if c = 94 \<or> c = 96 then ''Sk''
      else if c = 95 then ''Pc''
      else ''Po'')"

definition category :: "unicode_db \<Rightarrow> nat \<Rightarrow> string" where
  "category U c = (if c < 128 then ascii_category c else u_category U c)"

text \<open>The loop that drops control characters. The characters listed in the source are
  newline, tab, colon, \<open>>\<close>, U+FE65, U+2640 and U+2642.\<close>

definition keep_char :: "unicode_db \<Rightarrow> nat \<Rightarrow> bool" where
  "keep_char U c =
     ((case category U c of [] \<Rightarrow> False | k # _ \<Rightarrow> k \<in> set ''LNPSZ'')
      \<or> c \<in> set [10, 9, 58, 62, 65125, 9792, 9794])"

definition filter_chars :: "unicode_db \<Rightarrow> pystr \<Rightarrow> pystr" where
  "filter_chars U text =
     concat (map (\<lambda>c. if keep_char U c then [c]
                       else if category U c = ''Zs'' then [32] else []) text)"

text \<open>\<open>str.replace\<close> of one character by one character, and by the empty string.\<close>

definition replace_char :: "nat \<Rightarrow> nat \<Rightarrow> pystr \<Rightarrow> pystr" where
  "replace_char a b text = map (\<lambda>c. if c = a then b else c) text"

definition remove_char :: "nat \<Rightarrow> pystr \<Rightarrow> pystr" where
  "remove_char a text = filter (\<lambda>c. c \<noteq> a) text"

text \<open>The seven replacements, in the order of the source: \<open>|\<close> to \<open>]\<close>, \<open>(\<close> to \<open>[\<close>,
  \<open>)\<close> to \<open>]\<close>, U+FB02 and U+FB01 removed, U+FE65 and U+FE55 to a colon.\<close>

definition ocr_replacements :: "pystr \<Rightarrow> pystr" where
  "ocr_replacements text =
     replace_char 65109 58 (replace_char 65125 58 (remove_char 64257 (remove_char 64258
       (replace_char 41 93 (replace_char 40 91 (replace_char 124 93 text))))))"

text \<open>
  \<open>re.sub(pattern, repl, text)\<close> for a pattern that only looks forward and never matches
  the empty string: the text is scanned from the left; where the pattern matches, the
  replacement is emitted and the scan continues after the match, elsewhere one
  character is copied. A pattern is given by its matcher at the start of a text, which
  returns the replacement and the number of characters matched.
\<close>

function re_sub :: "(pystr \<Rightarrow> (pystr \<times> nat) option) \<Rightarrow> pystr \<Rightarrow> pystr" where
  "re_sub m [] = []"
| "re_sub m (c # cs) =
     (case m (c # cs) of
        None \<Rightarrow> c # re_sub m cs
      | Some (rep, n) \<Rightarrow> rep @ re_sub m (drop (n - 1) cs))"
  by pat_completeness auto

termination
  by (relation "measure (\<lambda>(m, t). length t)") auto

text \<open>The character classes \<open>[A-Z0-9]\<close> with the ten circled digits U+2460 to U+2469,
  \<open>[A-Z]\<close> and \<open>[A-Za-z]\<close>.\<close>

definition is_tag_char :: "nat \<Rightarrow> bool" where
  "is_tag_char c = ((65 \<le> c \<and> c \<le> 90) \<or> (48 \<le> c \<and> c \<le> 57) \<or> (9312 \<le> c \<and> c \<le> 9321))"

definition is_upper_az :: "nat \<Rightarrow> bool" where
  "is_upper_az c = (65 \<le> c \<and> c \<le> 90)"

definition is_letter_az :: "nat \<Rightarrow> bool" where
  "is_letter_az c = ((65 \<le> c \<and> c \<le> 90) \<or> (97 \<le> c \<and> c \<le> 122))"

text \<open>Exactly \<open>n\<close> tag characters: the captured tag and the text after it. The
  quantifier \<open>{3,4}\<close> is greedy, so each rule tries four characters first and three if
  the rest of the pattern fails after four.\<close>

fun match_tag :: "nat \<Rightarrow> pystr \<Rightarrow> (pystr \<times> pystr) option" where
  "match_tag 0 r = Some ([], r)"
| "match_tag (Suc n) [] = None"
| "match_tag (Suc n) (c # cs) =
     (if is_tag_char c
      then (case match_tag n cs of None \<Rightarrow> None | Some (tag, r) \<Rightarrow> Some (c # tag, r))
      else None)"

text \<open>Rule 1: \<open>\[([A-Z0-9...]{3,4})l(?=[A-Z])\<close> replaced by \<open>[\1]\<close>.\<close>

definition rule1_n :: "nat \<Rightarrow> pystr \<Rightarrow> (pystr \<times> nat) option" where
  "rule1_n n r =
     (case match_tag n r of
        None \<Rightarrow> None
      | Some (tag, r1) \<Rightarrow>
         (case r1 of
            [] \<Rightarrow> None
          | l # r2 \<Rightarrow>
             (if l = 108 \<and> (case r2 of [] \<Rightarrow> False | u # _ \<Rightarrow> is_upper_az u)
              then Some (91 # tag @ [93], n + 2) else None)))"

definition rule1_at :: "pystr \<Rightarrow> (pystr \<times> nat) option" where
  "rule1_at t =
     (case t of
        [] \<Rightarrow> None
      | c # r \<Rightarrow>
         (if c \<noteq> 91 then None
          else (case rule1_n 4 r of Some x \<Rightarrow> Some x | None \<Rightarrow> rule1_n 3 r)))"

text \<open>Rule 1b: \<open>\[([A-Z0-9...]{3,4})J(?=[A-Z]{2}\s)\<close> replaced by \<open>[\1]\<close>.\<close>

definition rule1b_n :: "nat \<Rightarrow> pystr \<Rightarrow> (pystr \<times> nat) option" where
  "rule1b_n n r =
     (case match_tag n r of
        None \<Rightarrow> None
      | Some (tag, r1) \<Rightarrow>
         (case r1 of
            [] \<Rightarrow> None
          | l # r2 \<Rightarrow>
             (if l = 74 \<and> (case r2 of
                              a # b # s # _ \<Rightarrow> is_upper_az a \<and> is_upper_az b \<and> py_isspace s
                            | _ \<Rightarrow> False)
              then Some (91 # tag @ [93], n + 2) else None)))"

definition rule1b_at :: "pystr \<Rightarrow> (pystr \<times> nat) option" where
  "rule1b_at t =
     (case t of
        [] \<Rightarrow> None
      | c # r \<Rightarrow>
         (if c \<noteq> 91 then None
          else (case rule1b_n 4 r of Some x \<Rightarrow> Some x | None \<Rightarrow> rule1b_n 3 r)))"

text \<open>Rule 2: \<open>\[([A-Z0-9...]{3,4})([A-Za-z])(?!\])\<close> replaced by \<open>[\1]\2\<close>.\<close>

definition rule2_n :: "nat \<Rightarrow> pystr \<Rightarrow> (pystr \<times> nat) option" where
  "rule2_n n r =
     (case match_tag n r of
        None \<Rightarrow> None
      | Some (tag, r1) \<Rightarrow>
         (case r1 of
            [] \<Rightarrow> None
          | l # r2 \<Rightarrow>
             (if is_letter_az l \<and> (case r2 of [] \<Rightarrow> True | x # _ \<Rightarrow> x \<noteq> 93)
              then Some (91 # tag @ [93, l], n + 2) else None)))"

definition rule2_at :: "pystr \<Rightarrow> (pystr \<times> nat) option" where
  "rule2_at t =
     (case t of
        [] \<Rightarrow> None
      | c # r \<Rightarrow>
         (if c \<noteq> 91 then None
          else (case rule2_n 4 r of Some x \<Rightarrow> Some x | None \<Rightarrow> rule2_n 3 r)))"

text \<open>\<open>\s+\<close> replaced by one space.\<close>

definition ws_at :: "pystr \<Rightarrow> (pystr \<times> nat) option" where
  "ws_at t =
     (case t of
        [] \<Rightarrow> None
      | c # cs \<Rightarrow>
         (if py_isspace c then Some ([32], Suc (length (takeWhile py_isspace cs))) else None))"

definition clean_ocr_text :: "unicode_db \<Rightarrow> pystr \<Rightarrow> pystr" where
  "clean_ocr_text U text =
     py_strip (re_sub ws_at (re_sub rule2_at (re_sub rule1b_at (re_sub rule1_at
       (ocr_replacements (filter_chars U text))))))"

subsection \<open>Notions used in the proof of idempotence\<close>

text \<open>The characters a rule can read after the opening bracket.\<close>

definition plain :: "nat \<Rightarrow> bool" where
  "plain c = (is_tag_char c \<or> is_letter_az c \<or> c = 93)"

fun ok2 :: "nat \<Rightarrow> pystr \<Rightarrow> bool" where
  "ok2 0 r = (case r of [] \<Rightarrow> False
              | l # r2 \<Rightarrow> is_letter_az l \<and> (case r2 of [] \<Rightarrow> True | x # _ \<Rightarrow> x \<noteq> 93))"
| "ok2 (Suc n) [] = False"
| "ok2 (Suc n) (c # cs) = (is_tag_char c \<and> ok2 n cs)"

text \<open>A matcher that fires only at an opening bracket and whose replacement begins with
  one.\<close>

definition bracket_rule :: "(pystr \<Rightarrow> (pystr \<times> nat) option) \<Rightarrow> bool" where
  "bracket_rule m =
     (\<forall>t rep n. m t = Some (rep, n) \<longrightarrow> (\<exists>cs rep'. t = 91 # cs \<and> rep = 91 # rep'))"

fun no_match :: "(pystr \<Rightarrow> (pystr \<times> nat) option) \<Rightarrow> pystr \<Rightarrow> bool" where
  "no_match m [] = True"
| "no_match m (c # cs) = (m (c # cs) = None \<and> no_match m cs)"

text \<open>Characters that pass the filter and are not touched by the replacements.\<close>

definition good :: "unicode_db \<Rightarrow> nat \<Rightarrow> bool" where
  "good U c = (keep_char U c \<and> c \<notin> set [124, 40, 41, 64258, 64257, 65125, 65109])"

definition replace1 :: "nat \<Rightarrow> pystr" where
  "replace1 c =
     (if c = 124 then [93] else if c = 40 then [91] else if c = 41 then [93]
      else if c = 64258 \<or> c = 64257 then [] else if c = 65125 \<or> c = 65109 then [58]
      else [c])"

text \<open>Whitespace in normal form: every whitespace character is a single space followed
  by a character that is not whitespace, or by the end of the text.\<close>

fun spaced :: "pystr \<Rightarrow> bool" where
  "spaced [] = True"
| "spaced (c # cs) =
     ((if py_isspace c then c = 32 \<and> (case cs of [] \<Rightarrow> True | d # _ \<Rightarrow> \<not> py_isspace d)
       else True) \<and> spaced cs)"

section \<open>Chat parser: segmentation (vision\_system.py)\<close>

record ChatMessage =
  cm_alliance_tag :: pystr
  cm_player_name :: pystr
  cm_message :: pystr
  cm_timestamp :: "pystr option"
  cm_raw_text :: pystr

text \<open>\<open>str.split(sep)\<close> for a separator of one character, and \<open>sep.join(parts)\<close>.\<close>

fun split_on :: "nat \<Rightarrow> pystr \<Rightarrow> pystr list" where
  "split_on sep [] = [[]]"
| "split_on sep (c # cs) =
     (if c = sep then [] # split_on sep cs
      else (case split_on sep cs of [] \<Rightarrow> [[c]] | p # ps \<Rightarrow> (c # p) # ps))"

fun py_join :: "pystr \<Rightarrow> pystr list \<Rightarrow> pystr" where
  "py_join sep [] = []"
| "py_join sep [p] = p"
| "py_join sep (p # q # ps) = p @ sep @ py_join sep (q # ps)"

text \<open>
  Matching under \<open>re.IGNORECASE\<close>. A lower-case ASCII letter of the pattern matches a
  character of the text whose lower case it is; besides the two ASCII cases these are
  U+0130 and U+0131 for \<open>i\<close>, U+017F for \<open>s\<close> and U+212A for \<open>k\<close>. The same four
  characters belong to the class \<open>[A-Za-z]\<close> under the flag.
\<close>

definition ci_eq :: "nat \<Rightarrow> nat \<Rightarrow> bool" where
  "ci_eq p c =
     ((c < 128 \<and> ascii_lower_char c = p)
      \<or> (p = 105 \<and> (c = 304 \<or> c = 305)) \<or> (p = 115 \<and> c = 383) \<or> (p = 107 \<and> c = 8490))"

fun ci_prefix :: "pystr \<Rightarrow> pystr \<Rightarrow> bool" where
  "ci_prefix [] t = True"
| "ci_prefix (p # ps) [] = False"
| "ci_prefix (p # ps) (c # cs) = (ci_eq p c \<and> ci_prefix ps cs)"

text \<open>\<open>\w\<close>: alphanumeric or underscore; outside ASCII the database decides.\<close>

definition is_word :: "unicode_db \<Rightarrow> nat \<Rightarrow> bool" where
  "is_word U c =
     (if c < 128
      then (48 \<le> c \<and> c \<le> 57) \<or> (65 \<le> c \<and> c \<le> 90) \<or> (97 \<le> c \<and> c \<le> 122) \<or> c = 95
      else u_isalnum U c)"

text \<open>The look-ahead \<open>(?=$|[\s\W])\<close>: \<open>$\<close> holds at the end of the text and before a
  newline that ends the text.\<close>

definition end_guard :: "unicode_db \<Rightarrow> pystr \<Rightarrow> bool" where
  "end_guard U r =
     (r = [] \<or> r = [10] \<or> (case r of [] \<Rightarrow> False | x # _ \<Rightarrow> py_isspace x \<or> \<not> is_word U x))"

definition kw_match_at :: "unicode_db \<Rightarrow> pystr \<Rightarrow> pystr \<Rightarrow> bool" where
  "kw_match_at U kw t = (ci_prefix kw t \<and> end_guard U (drop (length kw) t))"

definition title_keywords :: "pystr list" where
  "title_keywords =
     [S ''duke'', S ''scientist'', S ''architect'', S ''justice'',
      S ''title'', S ''titulo'', S ''titre'', S ''titlu'']"

text \<open>\<open>re.finditer\<close> for one keyword: the start and end of every match, scanning from the
  left and continuing after each match. \<open>pos\<close> is the index of the first character of
  the text still to be scanned.\<close>

function finditer_kw :: "unicode_db \<Rightarrow> pystr \<Rightarrow> nat \<Rightarrow> pystr \<Rightarrow> (nat \<times> nat) list" where
  "finditer_kw U kw pos [] = []"
| "finditer_kw U kw pos (c # cs) =
     (if kw \<noteq> [] \<and> kw_match_at U kw (c # cs)
      then (pos, pos + length kw) # finditer_kw U kw (pos + length kw) (drop (length kw - 1) cs)
      else finditer_kw U kw (pos + 1) cs)"
  by pat_completeness auto

termination
  by (relation "measure (\<lambda>(U, kw, pos, t). length t)") auto

text \<open>Python's order on strings and on the triples \<open>(start, end, keyword)\<close>, and the
  sort of the list of triples.\<close>

fun str_le :: "pystr \<Rightarrow> pystr \<Rightarrow> bool" where
  "str_le [] t = True"
| "str_le (c # cs) [] = False"
| "str_le (c # cs) (d # ds) = (c < d \<or> (c = d \<and> str_le cs ds))"

definition triple_le :: "nat \<times> nat \<times> pystr \<Rightarrow> nat \<times> nat \<times> pystr \<Rightarrow> bool" where
  "triple_le a b =
     (case a of (s1, e1, k1) \<Rightarrow> case b of (s2, e2, k2) \<Rightarrow>
        s1 < s2 \<or> (s1 = s2 \<and> (e1 < e2 \<or> (e1 = e2 \<and> str_le k1 k2))))"

fun insert_sorted ::
  "nat \<times> nat \<times> pystr \<Rightarrow> (nat \<times> nat \<times> pystr) list \<Rightarrow> (nat \<times> nat \<times> pystr) list" where
  "insert_sorted a [] = [a]"
| "insert_sorted a (b # bs) = (if triple_le a b then a # b # bs else b # insert_sorted a bs)"

definition sort_triples :: "(nat \<times> nat \<times> pystr) list \<Rightarrow> (nat \<times> nat \<times> pystr) list" where
  "sort_triples xs = foldr insert_sorted xs []"

definition title_positions :: "unicode_db \<Rightarrow> pystr \<Rightarrow> (nat \<times> nat \<times> pystr) list" where
  "title_positions U joined_text =
     sort_triples
       (concat (map (\<lambda>keyword. map (\<lambda>(s, e). (s, e, py_lower U keyword))
                                   (finditer_kw U keyword 0 joined_text))
                    title_keywords))"

text \<open>
  The tag pattern
  \<open>\[([A-Za-z0-9...]{1,8})\]([^:\[]+?)(?:[\s:]+)?(duke|scientist|architect|justice|title|titulo|titre|titlu)(?=$|[\s\W])\<close>
  under \<open>re.IGNORECASE\<close>, matched at the start of a text. The tag is tried with eight
  characters down to one; the name is lazy, so it grows one character at a time until
  the rest of the pattern matches; the optional separator is greedy, so it is tried from
  its longest length down to none; the keywords are tried in the order written.
\<close>

definition is_tagp_char :: "nat \<Rightarrow> bool" where
  "is_tagp_char c =
     ((65 \<le> c \<and> c \<le> 90) \<or> (97 \<le> c \<and> c \<le> 122) \<or> (48 \<le> c \<and> c \<le> 57)
      \<or> (9312 \<le> c \<and> c \<le> 9321) \<or> c = 304 \<or> c = 305 \<or> c = 383 \<or> c = 8490)"

fun match_tagp :: "nat \<Rightarrow> pystr \<Rightarrow> (pystr \<times> pystr) option" where
  "match_tagp 0 r = Some ([], r)"
| "match_tagp (Suc n) [] = None"
| "match_tagp (Suc n) (c # cs) =
     (if is_tagp_char c
      then (case match_tagp n cs of None \<Rightarrow> None | Some (tag, r) \<Rightarrow> Some (c # tag, r))
      else None)"

fun first_some :: "('a \<Rightarrow> 'b option) \<Rightarrow> 'a list \<Rightarrow> 'b option" where
  "first_some f [] = None"
| "first_some f (x # xs) = (case f x of Some y \<Rightarrow> Some y | None \<Rightarrow> first_some f xs)"

text \<open>The keyword alternatives with the look-ahead: the matched text.\<close>

definition kw_alt :: "unicode_db \<Rightarrow> pystr \<Rightarrow> pystr option" where
  "kw_alt U t =
     first_some (\<lambda>kw. if kw_match_at U kw t then Some (take (length kw) t) else None)
       title_keywords"

text \<open>The optional separator and the keyword: the matched keyword text and the number
  of characters matched.\<close>

definition after_name :: "unicode_db \<Rightarrow> pystr \<Rightarrow> (pystr \<times> nat) option" where
  "after_name U cs =
     (let seps = length (takeWhile (\<lambda>c. py_isspace c \<or> c = 58) cs)
      in first_some
           (\<lambda>m. case kw_alt U (drop m cs) of
                   None \<Rightarrow> None
                 | Some g3 \<Rightarrow> Some (g3, m + length g3))
           (rev [0..<Suc seps]))"

text \<open>The lazy name: the name, the keyword text and the number of characters matched
  after the name.\<close>

fun name_loop :: "unicode_db \<Rightarrow> pystr \<Rightarrow> pystr \<Rightarrow> (pystr \<times> pystr \<times> nat) option" where
  "name_loop U acc [] = None"
| "name_loop U acc (c # cs) =
     (if c = 58 \<or> c = 91 then None
      else (case after_name U cs of
              Some (g3, n) \<Rightarrow> Some (acc @ [c], g3, n)
            | None \<Rightarrow> name_loop U (acc @ [c]) cs))"

text \<open>The whole pattern: groups 1, 2 and 3 and the length of the match.\<close>

definition tag_match_at :: "unicode_db \<Rightarrow> pystr \<Rightarrow> (pystr \<times> pystr \<times> pystr \<times> nat) option" where
  "tag_match_at U t =
     (case t of
        [] \<Rightarrow> None
      | b # r \<Rightarrow>
         (if b \<noteq> 91 then None
          else first_some
                 (\<lambda>n. case match_tagp n r of
                         None \<Rightarrow> None
                       | Some (tag, r1) \<Rightarrow>
                          (case r1 of
                             [] \<Rightarrow> None
                           | e # r2 \<Rightarrow>
                              (if e \<noteq> 93 then None
                               else (case name_loop U [] r2 of
                                       None \<Rightarrow> None
                                     | Some (name, g3, k) \<Rightarrow>
                                        Some (tag, name, g3, 2 + n + length name + k)))))
                 [8, 7, 6, 5, 4, 3, 2, 1]))"

text \<open>\<open>re.finditer\<close> for the tag pattern: start, end, the three groups and the matched
  text.\<close>

function tag_finditer ::
  "unicode_db \<Rightarrow> nat \<Rightarrow> pystr \<Rightarrow> (nat \<times> nat \<times> pystr \<times> pystr \<times> pystr \<times> pystr) list" where
  "tag_finditer U pos [] = []"
| "tag_finditer U pos (c # cs) =
     (case tag_match_at U (c # cs) of
        None \<Rightarrow> tag_finditer U (pos + 1) cs
      | Some (g1, g2, g3, n) \<Rightarrow>
          (pos, pos + n, g1, g2, g3, take n (c # cs))
            # tag_finditer U (pos + n) (drop (n - 1) cs))"
  by pat_completeness auto

termination
  by (relation "measure (\<lambda>(U, pos, t). length t)") auto

text \<open>\<open>_normalize_tag\<close>: circled digits to digits, then \<open>O\<close> and \<open>o\<close> to \<open>0\<close>, \<open>l\<close> and
  \<open>I\<close> to \<open>1\<close>. No replacement produces a character that a later one replaces, so the
  chain of \<open>str.replace\<close> calls is one map over the characters.\<close>

definition circled_digit :: "nat \<Rightarrow> nat" where
  "circled_digit c =
     (if 9312 \<le> c \<and> c \<le> 9320 then c - 9312 + 49 else if c = 9321 then 48 else c)"

definition normalize_tag :: "pystr \<Rightarrow> pystr" where
  "normalize_tag tag =
     map (\<lambda>c. let d = circled_digit c
               in if d = 79 \<or> d = 111 then 48 else if d = 108 \<or> d = 73 then 49 else d) tag"

text \<open>\<open>result.split(sep)[-1]\<close>: the text after the last occurrence of \<open>sep\<close>, the
  occurrences being found from the left without overlap.\<close>

function after_last :: "pystr \<Rightarrow> pystr \<Rightarrow> pystr \<Rightarrow> pystr" where
  "after_last sep acc [] = acc"
| "after_last sep acc (c # cs) =
     (if sep \<noteq> [] \<and> take (length sep) (c # cs) = sep
      then after_last sep [] (drop (length sep - 1) cs)
      else after_last sep (acc @ [c]) cs)"
  by pat_completeness auto

termination
  by (relation "measure (\<lambda>(sep, acc, t). length t)") auto

definition split_last :: "pystr \<Rightarrow> pystr \<Rightarrow> pystr" where
  "split_last sep result = (if py_in sep result then after_last sep [] result else result)"

text \<open>\<open>str.isupper\<close> and \<open>str.isalpha\<close>, written out for ASCII text.\<close>

definition py_isupper :: "unicode_db \<Rightarrow> pystr \<Rightarrow> bool" where
  "py_isupper U s =
     (if is_ascii s
      then list_ex is_upper_az s \<and> \<not> list_ex (\<lambda>c. 97 \<le> c \<and> c \<le> 122) s
      else u_isupper U s)"

definition py_isalpha :: "unicode_db \<Rightarrow> pystr \<Rightarrow> bool" where
  "py_isalpha U s =
     (if is_ascii s then s \<noteq> [] \<and> list_all is_letter_az s else u_isalpha U s)"

definition normalize_player_name :: "unicode_db \<Rightarrow> pystr \<Rightarrow> pystr" where
  "normalize_player_name U name =
     (let result1 = map circled_digit name;
          result2 = (if list_ex is_letter_az result1
                     then dropWhile (\<lambda>ch. \<not> is_letter_az ch) result1 else result1);
          result3 = split_last [8212, 8212, 8212]
                      (split_last [45, 45, 45] (split_last [12540, 12540, 12540] result2));
          result4 = (case result3 of
                       l # u # rest \<Rightarrow>
                         (if l = 108 \<and> py_isupper U [u] then u # rest else result3)
                     | _ \<Rightarrow> result3)
      in py_strip result4)"

text \<open>\<open>str.find\<close> of a substring that is known to occur, and the first word of
  \<open>str.split()\<close> on a stripped, non-empty text.\<close>

fun py_find :: "pystr \<Rightarrow> pystr \<Rightarrow> nat" where
  "py_find needle [] = 0"
| "py_find needle (c # cs) =
     (if take (length needle) (c # cs) = needle then 0 else Suc (py_find needle cs))"

definition clean_message :: "unicode_db \<Rightarrow> pystr \<Rightarrow> pystr" where
  "clean_message U message =
     (let msg_lower = py_lower U message
      in case filter (\<lambda>kw. py_in kw msg_lower)
                [S ''duke'', S ''scientist'', S ''architect'', S ''justice''] of
           [] \<Rightarrow> message
         | kw # _ \<Rightarrow>
            (let kw_start = py_find kw msg_lower;
                 kw_end = kw_start + length kw;
                 remaining = py_strip (drop kw_end message);
                 word0 = takeWhile (\<lambda>c. \<not> py_isspace c) remaining
             in if remaining \<noteq> [] \<and> length word0 < 10 \<and> py_isalpha U word0
                then take kw_end message @ [32] @ word0
                else take kw_end message))"

text \<open>The body of the loop over the matches of the tag pattern: the messages and the
  tagged ranges collected so far, and one match.\<close>

definition tagged_step ::
  "unicode_db \<Rightarrow> ChatMessage list \<times> (nat \<times> nat) list
     \<Rightarrow> nat \<times> nat \<times> pystr \<times> pystr \<times> pystr \<times> pystr
     \<Rightarrow> ChatMessage list \<times> (nat \<times> nat) list" where
  "tagged_step U st mt =
     (case st of (messages, tagged_ranges) \<Rightarrow>
      case mt of (start, end, g1, g2, g3, g0) \<Rightarrow>
        (let alliance_tag = normalize_tag g1;
             player_name1 = py_strip g2;
             message_part = py_lower U (py_strip g3);
             player_name2 = rev (dropWhile (\<lambda>c. c = 58 \<or> py_isspace c) (rev player_name1));
             player_name3 = clean_ocr_text U player_name2;
             player_name = normalize_player_name U player_name3
         in if player_name \<noteq> [] \<and> message_part \<noteq> []
            then (messages @ [\<lparr> cm_alliance_tag = alliance_tag, cm_player_name = player_name,
                                 cm_message = message_part, cm_timestamp = None,
                                 cm_raw_text = g0 \<rparr>],
                  tagged_ranges @ [(start, end)])
            else (messages, tagged_ranges)))"

text \<open>The two \<open>while\<close> loops that move \<open>name_end\<close> left and \<open>name_start\<close> right over
  spaces and colons.\<close>

fun name_end_loop :: "pystr \<Rightarrow> nat \<Rightarrow> nat" where
  "name_end_loop joined_text 0 = 0"
| "name_end_loop joined_text (Suc k) =
     (if k < length joined_text \<and> (joined_text ! k = 32 \<or> joined_text ! k = 58)
      then name_end_loop joined_text k else Suc k)"

function name_start_loop :: "pystr \<Rightarrow> nat \<Rightarrow> nat \<Rightarrow> nat" where
  "name_start_loop joined_text name_end name_start =
     (if name_start < name_end \<and> name_start < length joined_text
         \<and> (joined_text ! name_start = 32 \<or> joined_text ! name_start = 58)
      then name_start_loop joined_text name_end (name_start + 1) else name_start)"
  by pat_completeness auto

termination
  by (relation "measure (\<lambda>(t, e, s). e - s)") auto

text \<open>The body of the loop over the title positions, for players without a tag.\<close>

definition untagged_step ::
  "unicode_db \<Rightarrow> pystr \<Rightarrow> (nat \<times> nat \<times> pystr) list \<Rightarrow> (nat \<times> nat) list
     \<Rightarrow> ChatMessage list \<Rightarrow> nat \<times> nat \<times> pystr \<Rightarrow> ChatMessage list" where
  "untagged_step U joined_text positions tagged_ranges messages tp =
     (case tp of (title_start, title_end, title) \<Rightarrow>
        if list_ex (\<lambda>(start, end). start \<le> title_start \<and> title_start \<le> end) tagged_ranges
        then messages
        else
          (let name_end = name_end_loop joined_text title_start;
               prev_title_end =
                 fold (\<lambda>(prev_start, prev_end, kw) acc.
                         if prev_end < name_end \<and> prev_end > acc then prev_end else acc)
                      positions 0;
               name_start = name_start_loop joined_text name_end prev_title_end;
               player_name1 = py_strip (take (name_end - name_start) (drop name_start joined_text));
               player_name2 = clean_ocr_text U player_name1;
               player_name = normalize_player_name U player_name2
           in if length player_name \<ge> 2 \<and> take 1 player_name \<noteq> [12540]
                 \<and> \<not> list_ex (\<lambda>m. py_lower U (cm_player_name m) = py_lower U player_name)
                        messages
              then messages @ [\<lparr> cm_alliance_tag = [], cm_player_name = player_name,
                                  cm_message = title, cm_timestamp = None,
                                  cm_raw_text = player_name @ [32] @ title \<rparr>]
              else messages))"

text \<open>The final pass that keeps the first message of each player and cleans its
  message text.\<close>

fun unique_messages :: "unicode_db \<Rightarrow> pystr list \<Rightarrow> ChatMessage list \<Rightarrow> ChatMessage list" where
  "unique_messages U seen_players [] = []"
| "unique_messages U seen_players (msg # msgs) =
     (let key = py_lower U (cm_player_name msg)
      in if key \<in> set seen_players then unique_messages U seen_players msgs
         else msg\<lparr>cm_message := clean_message U (cm_message msg)\<rparr>
                # unique_messages U (key # seen_players) msgs)"

definition parse_messages :: "unicode_db \<Rightarrow> pystr \<Rightarrow> ChatMessage list" where
  "parse_messages U ocr_text =
     (if ocr_text = [] then []
      else
        (let ocr_text1 = clean_ocr_text U ocr_text;
             lines = split_on 10 (py_strip ocr_text1);
             joined_text = py_join [32] (map py_strip (filter (\<lambda>line. py_strip line \<noteq> []) lines));
             positions = title_positions U joined_text;
             (messages1, tagged_ranges) =
                fold (\<lambda>mt st. tagged_step U st mt) (tag_finditer U 0 joined_text) ([], []);
             messages2 =
                fold (\<lambda>tp msgs. untagged_step U joined_text positions tagged_ranges msgs tp)
                     positions messages1
         in unique_messages U [] messages2))"



chapter \<open>Properties\<close>

section \<open>Properties of the title request tracker\<close>

lemma map_of_filter_keep:
  "map_of xs h = Some v \<Longrightarrow> P (h, v) \<Longrightarrow> map_of (filter P xs) h = Some v"
  by (induction xs) (auto split: if_splits)

lemma map_of_filter_absent:
  "map_of xs h = None \<Longrightarrow> map_of (filter P xs) h = None"
  by (induction xs) (auto split: if_splits)

lemma map_of_filter_drop:
  "\<forall>e \<in> set xs. fst e = h \<longrightarrow> \<not> P e \<Longrightarrow> map_of (filter P xs) h = None"
  by (induction xs) (auto split: if_splits)

lemma update_fresh_entries:
  "map_of xs h = None \<Longrightarrow> e \<in> set (AList.update h v xs) \<Longrightarrow> fst e = h \<Longrightarrow> e = (h, v)"
  by (induction xs) (auto split: if_splits)

lemma track_request_new:
  assumes "map_of (seen_messages s) (get_message_hash U md5 p k) = None"
  shows "fst (fst (track_request U md5 now s p a k)) = True"
    and "seen_messages (snd (track_request U md5 now s p a k)) =
           AList.update (get_message_hash U md5 p k) now
             (seen_messages (if length (seen_messages s) > 100 then cleanup_seen_messages now s else s))"
    and "seen_messages_ttl (snd (track_request U md5 now s p a k)) = seen_messages_ttl s"
  using assms
  by (simp_all add: track_request_def Let_def cleanup_seen_messages_def map_of_filter_absent)

lemma track_request_isNew_iff:
  "fst (fst (track_request U md5 now s p a k)) =
     (map_of (seen_messages (if length (seen_messages s) > 100 then cleanup_seen_messages now s else s))
        (get_message_hash U md5 p k) = None)"
  by (simp add: track_request_def Let_def split: option.splits)

lemma track_request_dup_state:
  assumes "fst (fst (track_request U md5 now s p a k)) = False"
  shows "snd (track_request U md5 now s p a k) =
           (if length (seen_messages s) > 100 then cleanup_seen_messages now s else s)"
proof (cases "map_of (seen_messages (if length (seen_messages s) > 100 then cleanup_seen_messages now s else s)) (get_message_hash U md5 p k)")
  case None
  then show ?thesis using assms by (simp add: track_request_def Let_def)
next
  case (Some v)
  then show ?thesis by (simp add: track_request_def Let_def)
qed

lemma demo_key:
  "get_message_hash ascii_db demo_hash (S ''WATUZI'') (S ''scientist'') = S ''watuzi:scientist''"
  by (simp add: get_message_hash_def demo_hash_def normalize_name_def py_lower_def is_ascii_def
      S_def ascii_lower_char_def py_strip_def py_lstrip_def py_rstrip_def py_isspace_def)

lemma demo_norm:
  "normalize_name ascii_db (S ''WATUZI'') = S ''watuzi''"
  by (simp add: normalize_name_def py_lower_def is_ascii_def
      S_def ascii_lower_char_def py_strip_def py_lstrip_def py_rstrip_def py_isspace_def)

lemma demo_tracker1_seen:
  "seen_messages demo_tracker1 = [(S ''watuzi:scientist'', 0)]"
  "seen_messages_ttl demo_tracker1 = 3600"
  by (simp_all add: demo_tracker1_def track_request_def Let_def demo_key new_tracker_def)

lemma demo_tracker2_eq: "demo_tracker2 = demo_tracker1"
  by (simp add: demo_tracker2_def track_request_def Let_def demo_key demo_tracker1_seen)

text \<open>
  Claim C10. When \<open>track_request\<close> reports a duplicate (\<open>isNew = False\<close>), the per-player
  statistics, the recent-requests list and the session counters are exactly what they
  were before the call, and the seen-cache is either untouched or has lost only entries
  whose age has reached the TTL (the cleanup pass, which runs when the cache holds more
  than 100 entries); no entry is added.
\<close>
theorem track_request_duplicate_atomic:
  assumes "fst (fst (track_request U md5 now s p a k)) = False"
  shows "player_stats (snd (track_request U md5 now s p a k)) = player_stats s
       \<and> recent_requests (snd (track_request U md5 now s p a k)) = recent_requests s
       \<and> session_requests (snd (track_request U md5 now s p a k)) = session_requests s
       \<and> session_grants (snd (track_request U md5 now s p a k)) = session_grants s
       \<and> seen_messages_ttl (snd (track_request U md5 now s p a k)) = seen_messages_ttl s
       \<and> seen_messages (snd (track_request U md5 now s p a k)) =
           (if length (seen_messages s) > 100
            then filter (\<lambda>(h, v). v > now - seen_messages_ttl s) (seen_messages s)
            else seen_messages s)
       \<and> set (seen_messages (snd (track_request U md5 now s p a k))) \<subseteq> set (seen_messages s)
       \<and> list_all (\<lambda>e. e \<in> set (seen_messages (snd (track_request U md5 now s p a k)))
                        \<or> snd e \<le> now - seen_messages_ttl s) (seen_messages s)"
  unfolding track_request_dup_state [OF assms]
  by (auto simp: cleanup_seen_messages_def list_all_iff)

text \<open>The premise of C10 at a concrete duplicate: the same request ten seconds later.\<close>
theorem track_request_duplicate_atomic_witness:
  "fst (fst (track_request ascii_db demo_hash 10 demo_tracker1 (S ''WATUZI'') (S ''F28A'') (S ''scientist''))) = False
   \<and> player_stats demo_tracker2 = player_stats demo_tracker1
   \<and> recent_requests demo_tracker2 = recent_requests demo_tracker1
   \<and> session_requests demo_tracker2 = session_requests demo_tracker1
   \<and> seen_messages demo_tracker2 = [(S ''watuzi:scientist'', 0)]"
proof -
  have dup: "fst (fst (track_request ascii_db demo_hash 10 demo_tracker1 (S ''WATUZI'') (S ''F28A'') (S ''scientist''))) = False"
    by (simp add: track_request_isNew_iff demo_key demo_tracker1_seen)
  from track_request_duplicate_atomic [OF dup] dup show ?thesis
    by (simp add: demo_tracker2_def demo_tracker1_seen)
qed

text \<open>
  Three calls of \<open>track_request\<close> for the same player and title, starting from a cache
  that does not hold the hash: the first is new, the second, less than the TTL later,
  is a duplicate, and the third, made once the TTL has passed, is new exactly when the
  seen-cache holds more than 100 entries at that call. The membership test does not
  look at the age of the entry, and the expiry pass runs only on a cache of more than
  100 entries.
\<close>
lemma track_request_three_calls:
  assumes fresh: "map_of (seen_messages s) (get_message_hash U md5 p k) = None"
    and c1: "track_request U md5 t1 s p a k = (r1, s1)"
    and c2: "track_request U md5 t2 s1 p a k = (r2, s2)"
    and c3: "track_request U md5 t3 s2 p a k = (r3, s3)"
    and within: "t2 - t1 < seen_messages_ttl s"
    and expired: "seen_messages_ttl s \<le> t3 - t1"
  shows "fst r1 = True \<and> fst r2 = False \<and> fst r3 = (length (seen_messages s2) > 100)"
proof -
  let ?h = "get_message_hash U md5 p k"
  let ?s0 = "if length (seen_messages s) > 100 then cleanup_seen_messages t1 s else s"
  have s0_none: "map_of (seen_messages ?s0) ?h = None"
    using fresh by (simp add: cleanup_seen_messages_def map_of_filter_absent)
  have r1: "fst r1 = True"
    using track_request_new(1) [OF fresh, of t1 a] c1 by simp
  have seen1: "seen_messages s1 = AList.update ?h t1 (seen_messages ?s0)"
    using track_request_new(2) [OF fresh, of t1 a] c1 by simp
  have ttl1: "seen_messages_ttl s1 = seen_messages_ttl s"
    using track_request_new(3) [OF fresh, of t1 a] c1 by simp
  have look1: "map_of (seen_messages s1) ?h = Some t1"
    by (simp add: seen1 update_conv')
  have only1: "\<forall>e \<in> set (seen_messages s1). fst e = ?h \<longrightarrow> e = (?h, t1)"
    using update_fresh_entries [OF s0_none] by (auto simp: seen1)
  let ?s1' = "if length (seen_messages s1) > 100 then cleanup_seen_messages t2 s1 else s1"
  have keep: "t1 > t2 - seen_messages_ttl s1" using within ttl1 by simp
  have look1': "map_of (seen_messages ?s1') ?h = Some t1"
    using look1 keep by (simp add: cleanup_seen_messages_def map_of_filter_keep)
  have r2: "fst r2 = False"
    using track_request_isNew_iff [of U md5 t2 s1 p a k] c2 look1' by simp
  have s2: "s2 = ?s1'"
    using track_request_dup_state [of U md5 t2 s1 p a k] r2 c2 by simp
  have look2: "map_of (seen_messages s2) ?h = Some t1"
    using look1' s2 by simp
  have ttl2: "seen_messages_ttl s2 = seen_messages_ttl s"
    using s2 ttl1 by (simp add: cleanup_seen_messages_def)
  have only2: "\<forall>e \<in> set (seen_messages s2). fst e = ?h \<longrightarrow> e = (?h, t1)"
    using only1 s2 by (auto simp: cleanup_seen_messages_def)
  have gone: "map_of (seen_messages (cleanup_seen_messages t3 s2)) ?h = None"
    unfolding cleanup_seen_messages_def Let_def
    using only2 expired ttl2 by (auto intro!: map_of_filter_drop)
  have r3: "fst r3 = (length (seen_messages s2) > 100)"
    using track_request_isNew_iff [of U md5 t3 s2 p a k] c3 look2 gone by auto
  show ?thesis using r1 r2 r3 by simp
qed

lemma crowded_fresh:
  "map_of (seen_messages crowded_tracker)
     (get_message_hash ascii_db demo_hash (S ''WATUZI'') (S ''scientist'')) = None"
  unfolding demo_key by (auto simp: crowded_tracker_def map_of_eq_None_iff S_def)

lemma update_fresh_append:
  "map_of xs h = None \<Longrightarrow> AList.update h v xs = xs @ [(h, v)]"
  by (induction xs) (auto split: if_splits)

lemma crowded_after_two: "length (seen_messages crowded_tracker2) > 100"
proof -
  let ?h = "get_message_hash ascii_db demo_hash (S ''WATUZI'') (S ''scientist'')"
  let ?s1 = "snd (track_request ascii_db demo_hash 0 crowded_tracker
              (S ''WATUZI'') (S ''F28A'') (S ''scientist''))"
  have c: "seen_messages (cleanup_seen_messages 0 crowded_tracker) = seen_messages crowded_tracker"
    by (simp add: cleanup_seen_messages_def crowded_tracker_def new_tracker_def filter_map comp_def)
  have len0: "length (seen_messages crowded_tracker) = 101"
    by (simp add: crowded_tracker_def)
  have seen1: "seen_messages ?s1 = AList.update ?h 0 (seen_messages crowded_tracker)"
    using track_request_new(2) [OF crowded_fresh, of 0 "S ''F28A''"] len0 c by simp
  have ttl1: "seen_messages_ttl ?s1 = 3600"
    using track_request_new(3) [OF crowded_fresh, of 0 "S ''F28A''"]
    by (simp add: crowded_tracker_def new_tracker_def)
  have len1: "length (seen_messages ?s1) = 102"
    unfolding seen1 update_fresh_append [OF crowded_fresh] using len0 by simp
  have all0: "\<forall>e \<in> set (seen_messages ?s1). snd e = 0"
    unfolding seen1 update_fresh_append [OF crowded_fresh]
    by (auto simp: crowded_tracker_def)
  have keep: "filter (\<lambda>(k, v). - 3590 < v) (seen_messages ?s1) = seen_messages ?s1"
    using all0 by (auto intro!: filter_True)
  have look1: "map_of (seen_messages ?s1) ?h = Some 0"
    unfolding seen1 by (simp add: update_conv')
  have "fst (fst (track_request ascii_db demo_hash 10 ?s1 (S ''WATUZI'') (S ''F28A'') (S ''scientist''))) = False"
    unfolding track_request_isNew_iff
    by (simp add: len1 cleanup_seen_messages_def ttl1 keep look1)
  from track_request_dup_state [OF this]
  show ?thesis
    unfolding crowded_tracker2_def crowded_tracker1_def
    by (simp add: len1 cleanup_seen_messages_def ttl1 keep)
qed


text \<open>
  Claim C1 at the failing input. On a fresh tracker, whose TTL is 3600 s, the same
  request at 0 s, 10 s and 4000 s gives \<open>True\<close>, \<open>False\<close> and again \<open>False\<close>: the third
  call is past the TTL and is still reported as a duplicate, because the cache holds a
  single entry and the expiry pass is skipped. On a tracker whose cache holds 101 other
  entries the same three calls give \<open>True\<close>, \<open>False\<close>, \<open>True\<close>: there the expiry pass runs
  and the TTL is honoured.
\<close>

theorem track_request_ttl_not_applied:
  "seen_messages_ttl new_tracker = 3600 \<and> (3600::real) \<le> 4000 - 0
   \<and> fst (fst (track_request ascii_db demo_hash 0 new_tracker (S ''WATUZI'') (S ''F28A'') (S ''scientist''))) = True
   \<and> fst (fst (track_request ascii_db demo_hash 10 demo_tracker1 (S ''WATUZI'') (S ''F28A'') (S ''scientist''))) = False
   \<and> length (seen_messages demo_tracker2) = 1
   \<and> fst (fst (track_request ascii_db demo_hash 4000 demo_tracker2 (S ''WATUZI'') (S ''F28A'') (S ''scientist''))) = False
   \<and> seen_messages_ttl crowded_tracker = 3600
   \<and> length (seen_messages crowded_tracker) = 101
   \<and> fst (fst (track_request ascii_db demo_hash 0 crowded_tracker (S ''WATUZI'') (S ''F28A'') (S ''scientist''))) = True
   \<and> fst (fst (track_request ascii_db demo_hash 10 crowded_tracker1 (S ''WATUZI'') (S ''F28A'') (S ''scientist''))) = False
   \<and> length (seen_messages crowded_tracker2) > 100
   \<and> fst (fst (track_request ascii_db demo_hash 4000 crowded_tracker2 (S ''WATUZI'') (S ''F28A'') (S ''scientist''))) = True"
proof -
  have fresh: "map_of (seen_messages new_tracker)
                 (get_message_hash ascii_db demo_hash (S ''WATUZI'') (S ''scientist'')) = None"
    by (simp add: new_tracker_def)
  have c1: "track_request ascii_db demo_hash 0 new_tracker (S ''WATUZI'') (S ''F28A'') (S ''scientist'')
             = (fst (track_request ascii_db demo_hash 0 new_tracker (S ''WATUZI'') (S ''F28A'') (S ''scientist'')),
                demo_tracker1)"
    by (simp add: demo_tracker1_def)
  have c2: "track_request ascii_db demo_hash 10 demo_tracker1 (S ''WATUZI'') (S ''F28A'') (S ''scientist'')
             = (fst (track_request ascii_db demo_hash 10 demo_tracker1 (S ''WATUZI'') (S ''F28A'') (S ''scientist'')),
                demo_tracker2)"
    by (simp add: demo_tracker2_def)
  have c3: "track_request ascii_db demo_hash 4000 demo_tracker2 (S ''WATUZI'') (S ''F28A'') (S ''scientist'')
             = (fst (track_request ascii_db demo_hash 4000 demo_tracker2 (S ''WATUZI'') (S ''F28A'') (S ''scientist'')),
                demo_tracker3)"
    by (simp add: demo_tracker3_def)
  have d1: "track_request ascii_db demo_hash 0 crowded_tracker (S ''WATUZI'') (S ''F28A'') (S ''scientist'')
             = (fst (track_request ascii_db demo_hash 0 crowded_tracker (S ''WATUZI'') (S ''F28A'') (S ''scientist'')),
                crowded_tracker1)"
    by (simp add: crowded_tracker1_def)
  have d2: "track_request ascii_db demo_hash 10 crowded_tracker1 (S ''WATUZI'') (S ''F28A'') (S ''scientist'')
             = (fst (track_request ascii_db demo_hash 10 crowded_tracker1 (S ''WATUZI'') (S ''F28A'') (S ''scientist'')),
                crowded_tracker2)"
    by (simp add: crowded_tracker2_def)
  have d3: "track_request ascii_db demo_hash 4000 crowded_tracker2 (S ''WATUZI'') (S ''F28A'') (S ''scientist'')
             = (fst (track_request ascii_db demo_hash 4000 crowded_tracker2 (S ''WATUZI'') (S ''F28A'') (S ''scientist'')),
                crowded_tracker3)"
    by (simp add: crowded_tracker3_def)
  have within: "(10::real) - 0 < seen_messages_ttl new_tracker"
    "(10::real) - 0 < seen_messages_ttl crowded_tracker"
    by (simp_all add: new_tracker_def crowded_tracker_def)
  have expired: "seen_messages_ttl new_tracker \<le> (4000::real) - 0"
    "seen_messages_ttl crowded_tracker \<le> (4000::real) - 0"
    by (simp_all add: new_tracker_def crowded_tracker_def)
  have small: "length (seen_messages demo_tracker2) = 1"
    by (simp add: demo_tracker2_eq demo_tracker1_seen)
  show ?thesis
    using track_request_three_calls [OF fresh c1 c2 c3 within(1) expired(1)]
      track_request_three_calls [OF crowded_fresh d1 d2 d3 within(2) expired(2)]
      small crowded_after_two
    by (simp add: new_tracker_def crowded_tracker_def)
qed

lemma record_grant_seen:
  assumes "fst (record_grant U md5 now s p k)"
  shows "map_of (seen_messages (snd (record_grant U md5 now s p k))) (get_message_hash U md5 p k) = None"
  using assms
  by (cases "map_of (player_stats s) (normalize_name U p)")
     (simp_all add: record_grant_def Let_def delete_conv')

lemma track_request_keeps_unexpired:
  assumes look: "map_of (seen_messages s) h = Some v"
    and fresh: "now - seen_messages_ttl s < v"
  shows "map_of (seen_messages (snd (track_request U md5 now s q b j))) h = Some v"
proof -
  let ?s1 = "if length (seen_messages s) > 100 then cleanup_seen_messages now s else s"
  have look1: "map_of (seen_messages ?s1) h = Some v"
    using look fresh by (simp add: cleanup_seen_messages_def map_of_filter_keep)
  show ?thesis
  proof (cases "map_of (seen_messages ?s1) (get_message_hash U md5 q j)")
    case None
    then have "get_message_hash U md5 q j \<noteq> h" using look1 by auto
    then show ?thesis using None look1
      by (simp add: track_request_def Let_def update_conv')
  next
    case (Some w)
    then show ?thesis using look1 by (simp add: track_request_def Let_def)
  qed
qed

text \<open>
  Claim C3, as the code has it. After a successful \<open>record_grant(p, k)\<close> an immediate
  \<open>track_request(p, t, k)\<close> returns \<open>isNew = True\<close>, whatever the age of the original
  entry, because \<open>record_grant\<close> deletes the hash of \<open>(p, k)\<close>. \<open>track_request\<close> itself
  never removes an entry that is still within the TTL. Two further operations remove
  entries early: \<open>clear_player_from_seen\<close> and \<open>reset_seen_messages\<close>.
\<close>
theorem record_grant_clears_dedup:
  "(fst (record_grant U md5 now s p k) \<longrightarrow>
      fst (fst (track_request U md5 now' (snd (record_grant U md5 now s p k)) p a k)) = True)
   \<and> (map_of (seen_messages s) h = Some v \<and> t - seen_messages_ttl s < v \<longrightarrow>
        map_of (seen_messages (snd (track_request U md5 t s q b j))) h = Some v)
   \<and> (k \<noteq> [] \<longrightarrow>
        map_of (seen_messages (clear_player_from_seen U md5 s p (Some k)))
          (get_message_hash U md5 p k) = None)
   \<and> seen_messages (reset_seen_messages s) = []"
proof (intro conjI impI)
  assume "fst (record_grant U md5 now s p k)"
  from record_grant_seen [OF this] track_request_new(1)
  show "fst (fst (track_request U md5 now' (snd (record_grant U md5 now s p k)) p a k)) = True"
    by blast
next
  assume "map_of (seen_messages s) h = Some v \<and> t - seen_messages_ttl s < v"
  then show "map_of (seen_messages (snd (track_request U md5 t s q b j))) h = Some v"
    using track_request_keeps_unexpired by blast
next
  assume "k \<noteq> []"
  then show "map_of (seen_messages (clear_player_from_seen U md5 s p (Some k)))
          (get_message_hash U md5 p k) = None"
    by (simp add: clear_player_from_seen_def delete_conv')
next
  show "seen_messages (reset_seen_messages s) = []"
    by (simp add: reset_seen_messages_def)
qed

lemma demo_tracker1_stats:
  "map_of (player_stats demo_tracker1) (S ''watuzi'') \<noteq> None"
  by (simp add: demo_tracker1_def track_request_def Let_def demo_key demo_norm new_tracker_def
      update_conv')

text \<open>The hypotheses of C3 on a tracker that saw the request five seconds before the
  grant.\<close>
theorem record_grant_clears_dedup_witness:
  "fst (fst (track_request ascii_db demo_hash 6 demo_tracker1 (S ''WATUZI'') (S ''F28A'') (S ''scientist''))) = False
   \<and> fst (record_grant ascii_db demo_hash 5 demo_tracker1 (S ''WATUZI'') (S ''scientist''))
   \<and> fst (fst (track_request ascii_db demo_hash 6
        (snd (record_grant ascii_db demo_hash 5 demo_tracker1 (S ''WATUZI'') (S ''scientist'')))
        (S ''WATUZI'') (S ''F28A'') (S ''scientist''))) = True
   \<and> map_of (seen_messages (snd (track_request ascii_db demo_hash 6 demo_tracker1
        (S ''HolyDeeW'') (S ''F28A'') (S ''duke'')))) (S ''watuzi:scientist'') = Some 0
   \<and> map_of (seen_messages (clear_player_from_seen ascii_db demo_hash demo_tracker1
        (S ''WATUZI'') (Some (S ''scientist''))))
        (get_message_hash ascii_db demo_hash (S ''WATUZI'') (S ''scientist'')) = None"
proof -
  have g: "fst (record_grant ascii_db demo_hash 5 demo_tracker1 (S ''WATUZI'') (S ''scientist''))"
    using demo_tracker1_stats by (auto simp: record_grant_def Let_def demo_norm)
  have d: "fst (fst (track_request ascii_db demo_hash 6 demo_tracker1 (S ''WATUZI'') (S ''F28A'') (S ''scientist''))) = False"
    by (simp add: track_request_isNew_iff demo_key demo_tracker1_seen)
  have l: "map_of (seen_messages demo_tracker1) (S ''watuzi:scientist'') = Some 0
           \<and> 6 - seen_messages_ttl demo_tracker1 < 0"
    by (simp add: demo_tracker1_seen)
  have n: "S ''scientist'' \<noteq> []" by (simp add: S_def)
  show ?thesis
    using record_grant_clears_dedup [where U = ascii_db and ?md5.0 = demo_hash and now = 5
        and s = demo_tracker1 and p = "S ''WATUZI''" and k = "S ''scientist''" and now' = 6
        and a = "S ''F28A''" and h = "S ''watuzi:scientist''" and v = 0 and t = 6
        and q = "S ''HolyDeeW''" and b = "S ''F28A''" and j = "S ''duke''"]
      g d l n by simp
qed

text \<open>
  Claim C3 says that \<open>record_grant\<close> is the only path that removes a seen-cache entry
  early. It is not: an entry six seconds old (TTL 3600 s) is removed by
  \<open>clear_player_from_seen\<close> and by \<open>reset_seen_messages\<close>, and the following
  \<open>track_request\<close> returns \<open>True\<close> without any grant.
\<close>
theorem record_grant_only_path_counterexample:
  "map_of (seen_messages demo_tracker1) (S ''watuzi:scientist'') = Some 0
   \<and> (6::real) - seen_messages_ttl demo_tracker1 < 0
   \<and> fst (fst (track_request ascii_db demo_hash 6 demo_tracker1 (S ''WATUZI'') (S ''F28A'') (S ''scientist''))) = False
   \<and> map_of (seen_messages (clear_player_from_seen ascii_db demo_hash demo_tracker1
        (S ''WATUZI'') (Some (S ''scientist'')))) (S ''watuzi:scientist'') = None
   \<and> fst (fst (track_request ascii_db demo_hash 6
        (clear_player_from_seen ascii_db demo_hash demo_tracker1 (S ''WATUZI'') (Some (S ''scientist'')))
        (S ''WATUZI'') (S ''F28A'') (S ''scientist''))) = True
   \<and> fst (fst (track_request ascii_db demo_hash 6 (reset_seen_messages demo_tracker1)
        (S ''WATUZI'') (S ''F28A'') (S ''scientist''))) = True"
proof -
  have n: "S ''scientist'' \<noteq> []" by (simp add: S_def)
  show ?thesis
    using n
    by (simp add: track_request_isNew_iff demo_key demo_tracker1_seen clear_player_from_seen_def
        reset_seen_messages_def)
qed

section \<open>Properties of title extraction\<close>

lemma py_in_iff: "py_in n h \<longleftrightarrow> (\<exists>ps ss. h = ps @ n @ ss)"
proof (induction h)
  case Nil
  then show ?case by auto
next
  case (Cons c cs)
  show ?case
  proof
    assume "py_in n (c # cs)"
    then consider "take (length n) (c # cs) = n" | "py_in n cs" by auto
    then show "\<exists>ps ss. c # cs = ps @ n @ ss"
    proof cases
      case 1
      then have "c # cs = [] @ n @ drop (length n) (c # cs)"
        by (metis append_Nil append_take_drop_id)
      then show ?thesis by blast
    next
      case 2
      then obtain ps ss where "cs = ps @ n @ ss" using Cons.IH by auto
      then have "c # cs = (c # ps) @ n @ ss" by simp
      then show ?thesis by blast
    qed
  next
    assume "\<exists>ps ss. c # cs = ps @ n @ ss"
    then obtain ps ss where e: "c # cs = ps @ n @ ss" by auto
    show "py_in n (c # cs)"
    proof (cases ps)
      case Nil
      then have "take (length n) (c # cs) = n" using e by simp
      then show ?thesis by simp
    next
      case (Cons p ps')
      then have "cs = ps' @ n @ ss" using e by simp
      then show ?thesis using Cons.IH by auto
    qed
  qed
qed

lemma py_in_trans: "py_in a b \<Longrightarrow> py_in b c \<Longrightarrow> py_in a c"
  unfolding py_in_iff
  by (metis append.assoc)

lemma kw_abbrev:
  "py_in (S ''jus'') (S ''justice'')" "py_in (S ''duk'') (S ''duke'')"
  "py_in (S ''arch'') (S ''architect'')" "py_in (S ''sci'') (S ''scientist'')"
  by (simp_all add: S_def)

lemma S_neq: 
  "S ''justice'' \<noteq> S ''scientist''" "S ''duke'' \<noteq> S ''scientist''" "S ''architect'' \<noteq> S ''scientist''"
  by (simp_all add: S_def)

lemma S_title_distinct:
  "S ''justice'' \<noteq> S ''duke''" "S ''justice'' \<noteq> S ''architect''" "S ''duke'' \<noteq> S ''architect''"
  "S ''duke'' \<noteq> S ''justice''" "S ''architect'' \<noteq> S ''justice''" "S ''architect'' \<noteq> S ''duke''"
  "S ''scientist'' \<noteq> S ''justice''" "S ''scientist'' \<noteq> S ''duke''"
  "S ''scientist'' \<noteq> S ''architect''"
  by (simp_all add: S_def)

lemma extract_title_type_chain:
  "extract_title_type U m =
     (if py_in (S ''jus'') (py_lower U m) then S ''justice''
      else if py_in (S ''duk'') (py_lower U m) then S ''duke''
      else if py_in (S ''arch'') (py_lower U m) then S ''architect''
      else S ''scientist'')"
  using py_in_trans [OF kw_abbrev(1), of "py_lower U m"]
    py_in_trans [OF kw_abbrev(2), of "py_lower U m"]
    py_in_trans [OF kw_abbrev(3), of "py_lower U m"]
  by (auto simp: extract_title_type_def Let_def)

text \<open>
  Claim C5, as the code has it. \<open>extract_title_type\<close> walks the titles in the fixed order
  justice, duke, architect and returns the first one whose name or three- or
  four-letter abbreviation (\<open>jus\<close>, \<open>duk\<close>, \<open>arch\<close>) occurs in the lower-cased
  message; when none occurs it returns \<open>scientist\<close>. So \<open>scientist\<close> is returned
  exactly when the lower-cased message contains none of \<open>jus\<close>, \<open>duk\<close> and \<open>arch\<close>; in
  particular a message with no title keyword at all gets the default. When several
  keywords occur there is no fallback: the first of justice, duke, architect,
  scientist that occurs wins.
\<close>

theorem extract_title_type_default:
  "extract_title_type U m =
     (if py_in (S ''jus'') (py_lower U m) then S ''justice''
      else if py_in (S ''duk'') (py_lower U m) then S ''duke''
      else if py_in (S ''arch'') (py_lower U m) then S ''architect''
      else S ''scientist'')
   \<and> (extract_title_type U m = S ''justice'' \<longleftrightarrow>
        py_in (S ''justice'') (py_lower U m) \<or> py_in (S ''jus'') (py_lower U m))
   \<and> (extract_title_type U m = S ''duke'' \<longleftrightarrow>
        \<not> (py_in (S ''justice'') (py_lower U m) \<or> py_in (S ''jus'') (py_lower U m))
        \<and> (py_in (S ''duke'') (py_lower U m) \<or> py_in (S ''duk'') (py_lower U m)))
   \<and> (extract_title_type U m = S ''architect'' \<longleftrightarrow>
        \<not> (py_in (S ''justice'') (py_lower U m) \<or> py_in (S ''jus'') (py_lower U m))
        \<and> \<not> (py_in (S ''duke'') (py_lower U m) \<or> py_in (S ''duk'') (py_lower U m))
        \<and> (py_in (S ''architect'') (py_lower U m) \<or> py_in (S ''arch'') (py_lower U m)))
   \<and> (extract_title_type U m = S ''scientist'' \<longleftrightarrow>
        \<not> (py_in (S ''justice'') (py_lower U m) \<or> py_in (S ''jus'') (py_lower U m))
        \<and> \<not> (py_in (S ''duke'') (py_lower U m) \<or> py_in (S ''duk'') (py_lower U m))
        \<and> \<not> (py_in (S ''architect'') (py_lower U m) \<or> py_in (S ''arch'') (py_lower U m)))
   \<and> (extract_title_type U m = S ''scientist'' \<longleftrightarrow>
        \<not> py_in (S ''jus'') (py_lower U m) \<and> \<not> py_in (S ''duk'') (py_lower U m)
        \<and> \<not> py_in (S ''arch'') (py_lower U m))
   \<and> (list_all (\<lambda>kw. \<not> py_in kw (py_lower U m))
         [S ''justice'', S ''jus'', S ''duke'', S ''duk'', S ''architect'', S ''arch'',
          S ''scientist'', S ''sci'']
       \<longrightarrow> extract_title_type U m = S ''scientist'')
   \<and> (py_in (S ''justice'') (py_lower U m) \<and> py_in (S ''duke'') (py_lower U m)
       \<longrightarrow> extract_title_type U m = S ''justice'')"
  using py_in_trans [OF kw_abbrev(1), of "py_lower U m"]
    py_in_trans [OF kw_abbrev(2), of "py_lower U m"]
    py_in_trans [OF kw_abbrev(3), of "py_lower U m"]
  unfolding extract_title_type_chain
  by (auto simp: S_title_distinct S_neq)

lemma lower_hello: "py_lower ascii_db (S ''hello'') = S ''hello''"
  by (simp add: py_lower_def is_ascii_def S_def ascii_lower_char_def)

lemma lower_dj: "py_lower ascii_db (S ''Duke or Justice'') = S ''duke or justice''"
  by (simp add: py_lower_def is_ascii_def S_def ascii_lower_char_def)

lemma lower_ad: "py_lower ascii_db (S ''Architect or Duke'') = S ''architect or duke''"
  by (simp add: py_lower_def is_ascii_def S_def ascii_lower_char_def)

lemma lower_arch: "py_lower ascii_db (S ''ARCH pls'') = S ''arch pls''"
  by (simp add: py_lower_def is_ascii_def S_def ascii_lower_char_def)

text \<open>Claim C5 at the messages \<open>hello\<close> (no keyword: the default), \<open>Duke or Justice\<close>
  (justice before duke), \<open>Architect or Duke\<close> (duke before architect) and \<open>ARCH pls\<close>
  (an abbreviation).\<close>

theorem extract_title_type_default_witness:
  "list_all (\<lambda>kw. \<not> py_in kw (py_lower ascii_db (S ''hello'')))
         [S ''justice'', S ''jus'', S ''duke'', S ''duk'', S ''architect'', S ''arch'',
          S ''scientist'', S ''sci'']
   \<and> extract_title_type ascii_db (S ''hello'') = S ''scientist''
   \<and> py_in (S ''justice'') (py_lower ascii_db (S ''Duke or Justice''))
   \<and> py_in (S ''duke'') (py_lower ascii_db (S ''Duke or Justice''))
   \<and> extract_title_type ascii_db (S ''Duke or Justice'') = S ''justice''
   \<and> \<not> py_in (S ''jus'') (py_lower ascii_db (S ''Architect or Duke''))
   \<and> py_in (S ''duke'') (py_lower ascii_db (S ''Architect or Duke''))
   \<and> py_in (S ''architect'') (py_lower ascii_db (S ''Architect or Duke''))
   \<and> extract_title_type ascii_db (S ''Architect or Duke'') = S ''duke''
   \<and> \<not> py_in (S ''jus'') (py_lower ascii_db (S ''ARCH pls''))
   \<and> \<not> py_in (S ''duk'') (py_lower ascii_db (S ''ARCH pls''))
   \<and> py_in (S ''arch'') (py_lower ascii_db (S ''ARCH pls''))
   \<and> extract_title_type ascii_db (S ''ARCH pls'') = S ''architect''"
proof -
  have a: "list_all (\<lambda>kw. \<not> py_in kw (py_lower ascii_db (S ''hello'')))
         [S ''justice'', S ''jus'', S ''duke'', S ''duk'', S ''architect'', S ''arch'',
          S ''scientist'', S ''sci'']"
    unfolding lower_hello by (simp add: S_def)
  have b: "py_in (S ''justice'') (py_lower ascii_db (S ''Duke or Justice''))
     \<and> py_in (S ''duke'') (py_lower ascii_db (S ''Duke or Justice''))"
    unfolding lower_dj by (simp add: S_def)
  have c: "\<not> py_in (S ''jus'') (py_lower ascii_db (S ''Architect or Duke''))
     \<and> \<not> py_in (S ''justice'') (py_lower ascii_db (S ''Architect or Duke''))
     \<and> py_in (S ''duke'') (py_lower ascii_db (S ''Architect or Duke''))
     \<and> py_in (S ''architect'') (py_lower ascii_db (S ''Architect or Duke''))"
    unfolding lower_ad by (simp add: S_def)
  have d: "\<not> py_in (S ''jus'') (py_lower ascii_db (S ''ARCH pls''))
     \<and> \<not> py_in (S ''justice'') (py_lower ascii_db (S ''ARCH pls''))
     \<and> \<not> py_in (S ''duk'') (py_lower ascii_db (S ''ARCH pls''))
     \<and> \<not> py_in (S ''duke'') (py_lower ascii_db (S ''ARCH pls''))
     \<and> py_in (S ''arch'') (py_lower ascii_db (S ''ARCH pls''))"
    unfolding lower_arch by (simp add: S_def)
  note h = extract_title_type_default [of ascii_db "S ''hello''"]
  note dj = extract_title_type_default [of ascii_db "S ''Duke or Justice''"]
  note ad = extract_title_type_default [of ascii_db "S ''Architect or Duke''"]
  note ar = extract_title_type_default [of ascii_db "S ''ARCH pls''"]
  have 1: "extract_title_type ascii_db (S ''hello'') = S ''scientist''"
    using h a by blast
  have 2: "extract_title_type ascii_db (S ''Duke or Justice'') = S ''justice''"
    using dj b by blast
  have 3: "extract_title_type ascii_db (S ''Architect or Duke'') = S ''duke''"
    using ad c by blast
  have 4: "extract_title_type ascii_db (S ''ARCH pls'') = S ''architect''"
    using ar d by blast
  show ?thesis using 1 2 3 4 a b c d by simp
qed

text \<open>
  Claim C5 as the specification states it fails: the message \<open>hello\<close> contains no title
  keyword and no abbreviation, and \<open>extract_title_type\<close> returns the default \<open>scientist\<close>
  for it.
\<close>

theorem extract_title_type_no_keyword_counterexample:
  "\<not> py_in (S ''justice'') (py_lower ascii_db (S ''hello''))
   \<and> \<not> py_in (S ''jus'') (py_lower ascii_db (S ''hello''))
   \<and> \<not> py_in (S ''duke'') (py_lower ascii_db (S ''hello''))
   \<and> \<not> py_in (S ''duk'') (py_lower ascii_db (S ''hello''))
   \<and> \<not> py_in (S ''architect'') (py_lower ascii_db (S ''hello''))
   \<and> \<not> py_in (S ''arch'') (py_lower ascii_db (S ''hello''))
   \<and> \<not> py_in (S ''scientist'') (py_lower ascii_db (S ''hello''))
   \<and> \<not> py_in (S ''sci'') (py_lower ascii_db (S ''hello''))
   \<and> extract_title_type ascii_db (S ''hello'') = S ''scientist''"
  unfolding extract_title_type_def Let_def lower_hello by (simp add: S_def)

section \<open>Properties of the recovery loops and of escape handling\<close>









lemma exit_dialog_device_frames:
  "dev_frame exit_dialog_device [] = Some UNKNOWN"
  "dev_frame exit_dialog_device
     [EvScreencap, EvKey ''KEYCODE_ESCAPE'', EvSleep (3 / 10), EvTap (800, 450), EvSleep (3 / 10),
      EvSleep (1 / 2)] = Some UNKNOWN"
  "dev_frame exit_dialog_device [EvKey ''KEYCODE_ESCAPE'', EvSleep (3 / 10)] = Some EXIT_MENU"
  "dev_frame exit_dialog_device [EvKey ''KEYCODE_ESCAPE'', EvSleep (3 / 10), EvSleep (3 / 10)]
     = Some EXIT_MENU"
  by (simp_all add: exit_dialog_device_def last_input_def)

lemma escape_sequence_events:
  "execute_action exit_dialog_device (get_recovery_action UNKNOWN) tr =
     (True, tr @ [EvKey ''KEYCODE_ESCAPE'', EvSleep (3 / 10), EvTap (800, 450), EvSleep (3 / 10)])"
  by (simp add: execute_action_def get_recovery_action_def plain_action_def exit_dialog_device_def)


text \<open>
  Claim C2 on the classifier's \<open>escape_sequence\<close>. On a device where the escape key opens
  the exit dialog, the recovery action for \<open>UNKNOWN\<close> sends the escape key and then,
  with no capture in between, taps (800, 450); the dialog's cancel position is
  (779, 457). The title bot's \<open>safe_escape\<close> on the same device captures a frame after
  the escape key and taps the cancel button next.
\<close>

theorem escape_sequence_unguarded:
  "dev_frame exit_dialog_device [EvKey ''KEYCODE_ESCAPE'', EvSleep (3 / 10)] = Some EXIT_MENU
   \<and> execute_action exit_dialog_device (get_recovery_action UNKNOWN) [] =
       (True, [EvKey ''KEYCODE_ESCAPE'', EvSleep (3 / 10), EvTap (800, 450), EvSleep (3 / 10)])
   \<and> position (get_recovery_action EXIT_MENU) = Some (779, 457)
   \<and> safe_escape exit_dialog_device exit_dialog_vision [] =
       [EvKey ''KEYCODE_ESCAPE'', EvSleep (3 / 10), EvSleep (3 / 10), EvScreencap,
        EvTap exit_cancel, EvSleep (1 / 2)]"
  using escape_sequence_events [of "[]"]
  by (simp add: exit_dialog_device_frames get_recovery_action_def plain_action_def
      safe_escape_def handle_exit_popup_def press_escape_def exit_dialog_vision_def)

lemma safe_escape_guard:
  "filter is_input (safe_escape D V tr) =
     filter is_input tr @ [EvKey ''KEYCODE_ESCAPE''] @
       (case dev_frame D (tr @ [EvKey ''KEYCODE_ESCAPE'', EvSleep (3 / 10), EvSleep (3 / 10)]) of
          None \<Rightarrow> []
        | Some f \<Rightarrow> if is_exit_popup V f then [EvTap exit_cancel] else [])"
  by (simp add: safe_escape_def handle_exit_popup_def press_escape_def split: option.splits)

section \<open>Properties of the state classifier\<close>

lemma stripe_sum:
  fixes a b :: real
  shows "(\<Sum>x = x0..<x0 + 2 * n. if odd x then a else b) = real n * (a + b)"
proof (induction n)
  case 0
  then show ?case by simp
next
  case (Suc n)
  have "(\<Sum>x = x0..<x0 + 2 * Suc n. if odd x then a else b)
        = (\<Sum>x = x0..<x0 + 2 * n. if odd x then a else b)
          + (if odd (x0 + 2 * n) then a else b) + (if odd (Suc (x0 + 2 * n)) then a else b)"
    by simp
  also have "\<dots> = real n * (a + b) + (a + b)"
    using Suc.IH by auto
  finally show ?case by (simp add: algebra_simps)
qed

lemma stripe_region_mean:
  assumes g: "\<And>y x. g y x = (if odd x then a else b)"
    and w: "x1 = x0 + 2 * n" "0 < n" and h: "y0 < y1"
  shows "region_mean g y0 y1 x0 x1 = (a + b) / 2"
proof -
  have "(\<Sum>y = y0..<y1. \<Sum>x = x0..<x1. g y x) = real (y1 - y0) * (real n * (a + b))"
    unfolding g w(1) stripe_sum by simp
  moreover have "real ((y1 - y0) * (x1 - x0)) = real (y1 - y0) * (2 * real n)"
    using w by simp
  ultimately show ?thesis
    unfolding region_mean_def using w h by (simp add: field_simps)
qed

lemma stripe_region_var:
  assumes g: "\<And>y x. g y x = (if odd x then a else b)"
    and w: "x1 = x0 + 2 * n" "0 < n" and h: "y0 < y1"
  shows "region_var g y0 y1 x0 x1 = ((a - b) / 2)\<^sup>2"
proof -
  have m: "region_mean g y0 y1 x0 x1 = (a + b) / 2"
    by (rule stripe_region_mean [OF g w h])
  have sq: "\<And>y x. (g y x - (a + b) / 2)\<^sup>2
              = (if odd x then ((a - b) / 2)\<^sup>2 else ((a - b) / 2)\<^sup>2)"
    unfolding g by (simp add: power2_eq_square field_simps)
  show ?thesis
    unfolding region_var_def m
    using stripe_region_mean [OF sq w h] by simp
qed

lemma stripe_region_std:
  assumes g: "\<And>y x. g y x = (if odd x then a else b)"
    and w: "x1 = x0 + 2 * n" "0 < n" and h: "y0 < y1"
  shows "region_std g y0 y1 x0 x1 = \<bar>a - b\<bar> / 2"
  unfolding region_std_def stripe_region_var [OF g w h]
  by (simp add: real_sqrt_abs)

lemma stripe_mean3:
  assumes f: "\<And>y x. px f y x 0 + px f y x 1 + px f y x 2 = (if odd x then a else b)"
    and w: "x1 = x0 + 2 * n" "0 < n" and h: "y0 < y1"
  shows "mean3 f y0 y1 x0 x1 = (a + b) / 6"
proof -
  have "(\<Sum>y = y0..<y1. \<Sum>x = x0..<x1. px f y x 0 + px f y x 1 + px f y x 2)
          = real (y1 - y0) * (real n * (a + b))"
    unfolding f w(1) stripe_sum by simp
  moreover have "real ((y1 - y0) * (x1 - x0) * 3) = real (y1 - y0) * (6 * real n)"
    using w by simp
  ultimately show ?thesis
    unfolding mean3_def using w h by (simp add: field_simps)
qed

lemma unat_byte: "k < 256 \<Longrightarrow> unat (of_nat k :: 8 word) = k"
  by (simp add: unat_of_nat)

lemma unat_striped:
  assumes "b + amp < 256" "g + amp < 256" "r + amp < 256"
  shows "unat (striped_frame b g r amp y x c) =
           (if c = 0 then b else if c = 1 then g else r) + (if odd x then amp else 0)"
proof -
  have "(if c = 0 then b else if c = 1 then g else r) + (if odd x then amp else 0) < 256"
    using assms by auto
  from unat_byte [OF this] show ?thesis unfolding striped_frame_def .
qed

lemma px_striped:
  assumes "b + amp < 256" "g + amp < 256" "r + amp < 256"
  shows "px (striped_frame b g r amp) y x c =
           real ((if c = 0 then b else if c = 1 then g else r) + (if odd x then amp else 0))"
  unfolding px_def unat_striped [OF assms] ..

lemma lef_chan:
  "chan loading_exit_frame 0 y x = (if odd x then 150 else 50)"
  "chan loading_exit_frame (Suc 0) y x = (if odd x then 220 else 120)"
  "chan loading_exit_frame 2 y x = (if odd x then 210 else 110)"
  by (simp_all add: chan_def loading_exit_frame_def px_striped)

lemma lef_sum3:
  "px loading_exit_frame y x 0 + px loading_exit_frame y x 1 + px loading_exit_frame y x 2
     = (if odd x then 580 else 280)"
  by (simp add: loading_exit_frame_def px_striped)

lemma lef_gray:
  "gray demo_cv loading_exit_frame y x = (if odd x then 209 else 109)"
  by (simp add: gray_def demo_cv_def loading_exit_frame_def unat_striped)

lemma emf_chan:
  "chan exit_map_frame 0 y x = (if odd x then 140 else 60)"
  "chan exit_map_frame (Suc 0) y x = (if odd x then 210 else 130)"
  "chan exit_map_frame 2 y x = (if odd x then 200 else 120)"
  by (simp_all add: chan_def exit_map_frame_def px_striped)

lemma emf_sum3:
  "px exit_map_frame y x 0 + px exit_map_frame y x 1 + px exit_map_frame y x 2
     = (if odd x then 550 else 310)"
  by (simp add: exit_map_frame_def px_striped)

lemma emf_gray:
  "gray demo_cv exit_map_frame y x = (if odd x then 199 else 119)"
  by (simp add: gray_def demo_cv_def exit_map_frame_def unat_striped)

lemma lef_black: "\<not> is_black_screen loading_exit_frame"
  unfolding is_black_screen_def
  by (simp add: stripe_mean3 [OF lef_sum3, where n = 800])

lemma lef_loading: "is_loading demo_cv loading_exit_frame"
  unfolding is_loading_def Let_def
  by (simp add: stripe_mean3 [OF lef_sum3, where n = 50]
      stripe_region_var [OF lef_gray, where n = 50] power2_eq_square)

lemma lef_exit: "is_exit_menu demo_cv loading_exit_frame"
  unfolding is_exit_menu_def Let_def
  by (simp add: demo_cv_def [THEN arg_cong, of exit_menu_template]
      stripe_region_mean [OF lef_chan(1), where n = 100]
      stripe_region_mean [OF lef_chan(2), where n = 100]
      stripe_region_mean [OF lef_chan(3), where n = 100]
      stripe_region_mean [OF lef_chan(1), where n = 80]
      stripe_region_mean [OF lef_chan(2), where n = 80]
      stripe_region_mean [OF lef_chan(3), where n = 80]
      stripe_region_mean [OF lef_gray, where n = 200]
      stripe_region_std [OF lef_gray, where n = 200])

lemma lef_map: "is_on_map loading_exit_frame"
  unfolding is_on_map_def Let_def
  by (simp add: stripe_mean3 [OF lef_sum3, where n = 800]
      stripe_region_std [OF lef_chan(1), where n = 800]
      stripe_region_std [OF lef_chan(2), where n = 800]
      stripe_region_std [OF lef_chan(3), where n = 800])

lemma emf_black: "\<not> is_black_screen exit_map_frame"
  unfolding is_black_screen_def
  by (simp add: stripe_mean3 [OF emf_sum3, where n = 800])

lemma emf_loading: "\<not> is_loading demo_cv exit_map_frame"
  unfolding is_loading_def Let_def
  by (simp add: stripe_mean3 [OF emf_sum3, where n = 50]
      stripe_region_var [OF emf_gray, where n = 50] power2_eq_square)

lemma emf_conn: "\<not> is_connection_error exit_map_frame"
  unfolding is_connection_error_def Let_def
  by (simp add: stripe_mean3 [OF emf_sum3, where n = 800])

lemma emf_exit: "is_exit_menu demo_cv exit_map_frame"
  unfolding is_exit_menu_def Let_def
  by (simp add: demo_cv_def [THEN arg_cong, of exit_menu_template]
      stripe_region_mean [OF emf_chan(1), where n = 100]
      stripe_region_mean [OF emf_chan(2), where n = 100]
      stripe_region_mean [OF emf_chan(3), where n = 100]
      stripe_region_mean [OF emf_chan(1), where n = 80]
      stripe_region_mean [OF emf_chan(2), where n = 80]
      stripe_region_mean [OF emf_chan(3), where n = 80]
      stripe_region_mean [OF emf_gray, where n = 200]
      stripe_region_std [OF emf_gray, where n = 200])

lemma emf_map: "is_on_map exit_map_frame"
  unfolding is_on_map_def Let_def
  by (simp add: stripe_mean3 [OF emf_sum3, where n = 800]
      stripe_region_std [OF emf_chan(1), where n = 800]
      stripe_region_std [OF emf_chan(2), where n = 800]
      stripe_region_std [OF emf_chan(3), where n = 800])

text \<open>
  Claim C4, as the code has it. For every frame that satisfies both the exit-dialog
  signature and the idle-map signature, \<open>detect_state\<close> never returns \<open>IDLE_MAP\<close>, because
  the exit-menu check stands before the map check. It returns \<open>EXIT_MENU\<close> unless one of
  the three error-state checks, which stand before the exit-menu check, fires on the
  frame: then the result is \<open>BLACK_SCREEN\<close>, \<open>LOADING_SCREEN\<close> or \<open>CONNECTION_ERROR\<close>.
\<close>

theorem detect_state_exit_before_map:
  assumes "is_exit_menu E f" and "is_on_map f"
  shows "(case detect_state E (Ndarray f) of
            Inl e \<Rightarrow> False
          | Inr res \<Rightarrow>
              state res \<noteq> IDLE_MAP
              \<and> state res =
                  (if is_black_screen f then BLACK_SCREEN
                   else if is_loading E f then LOADING_SCREEN
                   else if is_connection_error f then CONNECTION_ERROR
                   else EXIT_MENU))"
  using assms by (simp add: detect_state_def detect_frame_def)

text \<open>The hypotheses of C4 on a striped frame that satisfies both signatures and none of
  the error checks: the result is \<open>EXIT_MENU\<close>.\<close>

theorem detect_state_exit_before_map_witness:
  "is_exit_menu demo_cv exit_map_frame \<and> is_on_map exit_map_frame
   \<and> \<not> is_black_screen exit_map_frame \<and> \<not> is_loading demo_cv exit_map_frame
   \<and> \<not> is_connection_error exit_map_frame
   \<and> detect_state demo_cv (Ndarray exit_map_frame) =
       Inr \<lparr> state = EXIT_MENU, confidence = 95 / 100,
             details = [(''reason'', VStr ''Exit menu detected'')],
             suggested_action = Some ''click_cancel'',
             recovery_steps = Some [''Click CANCEL button at (779, 457)''] \<rparr>"
  using detect_state_exit_before_map [OF emf_exit emf_map]
    emf_exit emf_map emf_black emf_loading emf_conn
  by (simp add: detect_state_def detect_frame_def)

text \<open>
  Claim C4 as the specification states it fails: the striped frame
  \<open>loading_exit_frame\<close> satisfies the exit-dialog signature and the idle-map signature,
  and \<open>detect_state\<close> returns \<open>LOADING_SCREEN\<close> for it, not \<open>EXIT_MENU\<close>, because its centre
  also passes the loading check.
\<close>

theorem detect_state_exit_counterexample:
  "is_exit_menu demo_cv loading_exit_frame \<and> is_on_map loading_exit_frame
   \<and> detect_state demo_cv (Ndarray loading_exit_frame) =
       Inr \<lparr> state = LOADING_SCREEN, confidence = 85 / 100,
             details = [(''reason'', VStr ''Loading indicator detected'')],
             suggested_action = Some ''wait'',
             recovery_steps = Some [''Wait for loading to complete''] \<rparr>"
  using lef_exit lef_map lef_black lef_loading
  by (simp add: detect_state_def detect_frame_def)

lemma detect_ranking_type_cases:
  "detect_ranking_type f = RANKINGS_POWER \<or> detect_ranking_type f = RANKINGS_KILLPOINTS"
  by (simp add: detect_ranking_type_def Let_def split: if_splits prod.splits)

text \<open>
  Claim C6, as the code has it. For a well-formed frame \<open>detect_state\<close> does not raise; the
  confidence of its result is one of 0.95, 0.9, 0.85, 0.8 and 0.3, and the state is
  \<open>UNKNOWN\<close> exactly when the confidence is 0.3, so confidence 0 is never reported. For
  an unreadable frame it raises: \<open>AttributeError\<close> on \<open>None\<close>, \<open>ValueError\<close> on the
  zero-dimensional array of a failed capture.
\<close>

theorem detect_state_failure_semantics:
  "(case detect_state E (Ndarray f) of
      Inl e \<Rightarrow> False
    | Inr res \<Rightarrow>
        confidence res \<in> {95 / 100, 90 / 100, 85 / 100, 80 / 100, 3 / 10}
        \<and> confidence res \<noteq> 0
        \<and> (state res = UNKNOWN) = (confidence res = 3 / 10))
   \<and> detect_state E PyNone = Inl AttributeError
   \<and> detect_state E ZeroDim = Inl ValueError"
  using detect_ranking_type_cases [of f]
  by (auto simp: detect_state_def detect_frame_def Let_def)

text \<open>
  Claim C6 as the specification states it fails: on the unreadable frame \<open>None\<close> the
  classifier raises \<open>AttributeError\<close> instead of returning \<open>UNKNOWN\<close> with confidence 0.
\<close>

theorem detect_state_malformed_counterexample:
  "detect_state demo_cv PyNone = Inl AttributeError
   \<and> detect_state demo_cv ZeroDim = Inl ValueError"
  by (simp add: detect_state_def)

section \<open>Termination of the recovery loops\<close>










section \<open>Properties of the OCR cleaning pass\<close>

lemma re_sub_nomatch [simp]: "m (c # cs) = None \<Longrightarrow> re_sub m (c # cs) = c # re_sub m cs"
  by simp

lemma rule_at_not_bracket [simp]:
  "c \<noteq> 91 \<Longrightarrow> rule1_at (c # cs) = None"
  "c \<noteq> 91 \<Longrightarrow> rule1b_at (c # cs) = None"
  "c \<noteq> 91 \<Longrightarrow> rule2_at (c # cs) = None"
  by (simp_all add: rule1_at_def rule1b_at_def rule2_at_def)

lemma plain_not_bracket: "plain c \<Longrightarrow> c \<noteq> 91"
  by (auto simp: plain_def is_tag_char_def is_letter_az_def)

lemma plain_not_space: "plain c \<Longrightarrow> \<not> py_isspace c"
  by (auto simp: plain_def is_tag_char_def is_letter_az_def py_isspace_def)

lemma match_tag_Some:
  "match_tag n r = Some (tag, r1) \<Longrightarrow> r = tag @ r1 \<and> length tag = n \<and> list_all is_tag_char tag"
  by (induction n r arbitrary: tag r1 rule: match_tag.induct) (auto split: if_splits option.splits)

lemma rule2_n_ok: "(rule2_n n r \<noteq> None) = ok2 n r"
proof (induction n arbitrary: r)
  case 0
  then show ?case by (auto simp: rule2_n_def split: list.splits)
next
  case (Suc n)
  show ?case
  proof (cases r)
    case Nil
    then show ?thesis by (simp add: rule2_n_def)
  next
    case (Cons c cs)
    have "(rule2_n (Suc n) (c # cs) \<noteq> None) = (is_tag_char c \<and> rule2_n n cs \<noteq> None)"
      by (auto simp: rule2_n_def split: option.splits list.splits)
    then show ?thesis using Suc Cons by simp
  qed
qed

lemma ok2_takeWhile: "ok2 n (takeWhile plain r) = ok2 n r"
proof (induction n arbitrary: r)
  case 0
  show ?case
  proof (cases r)
    case Nil
    then show ?thesis by simp
  next
    case (Cons l r2)
    then show ?thesis
      by (cases r2) (auto simp: plain_def)
  qed
next
  case (Suc n)
  then show ?case by (cases r) (auto simp: plain_def)
qed

lemma rule2_at_ok: "(rule2_at (91 # r) = None) = (\<not> ok2 4 r \<and> \<not> ok2 3 r)"
  using rule2_n_ok [of 4 r] rule2_n_ok [of 3 r]
  by (auto simp: rule2_at_def split: option.splits)

lemma rule_n_rep:
  "rule1_n n r = Some (rep, k) \<Longrightarrow> \<exists>rep'. rep = 91 # rep'"
  "rule1b_n n r = Some (rep, k) \<Longrightarrow> \<exists>rep'. rep = 91 # rep'"
  "rule2_n n r = Some (rep, k) \<Longrightarrow> \<exists>rep'. rep = 91 # rep'"
  by (auto simp: rule1_n_def rule1b_n_def rule2_n_def split: option.splits list.splits if_splits)

lemma bracket_rules: "bracket_rule rule1_at" "bracket_rule rule1b_at" "bracket_rule rule2_at"
  unfolding bracket_rule_def rule1_at_def rule1b_at_def rule2_at_def
  by (auto split: list.splits if_splits option.splits dest: rule_n_rep)

lemma takeWhile_plain_re_sub:
  assumes "bracket_rule m"
  shows "takeWhile plain (re_sub m t) = takeWhile plain t"
proof (induction t)
  case Nil
  then show ?case by simp
next
  case (Cons c cs)
  show ?case
  proof (cases "m (c # cs)")
    case None
    then show ?thesis using Cons by simp
  next
    case (Some a)
    obtain rep n where a: "a = (rep, n)" by (cases a)
    from assms Some a obtain rep' where "c = 91" "rep = 91 # rep'"
      unfolding bracket_rule_def by blast
    then show ?thesis using Some a plain_not_bracket by auto
  qed
qed

lemma takeWhile_plain_ws: "takeWhile plain (re_sub ws_at t) = takeWhile plain t"
proof (induction t rule: length_induct)
  case (1 t)
  show ?case
  proof (cases t)
    case Nil
    then show ?thesis by simp
  next
    case (Cons c cs)
    show ?thesis
    proof (cases "py_isspace c")
      case True
      then have "\<not> plain c" using plain_not_space by blast
      moreover have "\<not> plain 32" using plain_not_space [of 32] by (auto simp: py_isspace_def)
      ultimately show ?thesis using Cons True by (simp add: ws_at_def)
    next
      case False
      then have "re_sub ws_at (c # cs) = c # re_sub ws_at cs" by (simp add: ws_at_def)
      then show ?thesis using Cons 1 by simp
    qed
  qed
qed

lemma no_match_re_sub: "no_match m t \<Longrightarrow> re_sub m t = t"
  by (induction t) auto

lemma no_match_drop: "no_match m t \<Longrightarrow> no_match m (drop k t)"
proof (induction t arbitrary: k)
  case Nil
  then show ?case by simp
next
  case (Cons c cs)
  then show ?case by (cases k) auto
qed

lemma no_match_dropWhile: "no_match m t \<Longrightarrow> no_match m (dropWhile P t)"
  by (induction t) auto

lemma no_match_append_plain:
  assumes "\<And>c cs. c \<noteq> 91 \<Longrightarrow> m (c # cs) = None"
    and "list_all (\<lambda>c. c \<noteq> 91) xs" and "no_match m ys"
  shows "no_match m (xs @ ys)"
  using assms(2,3) by (induction xs) (auto simp: assms(1))

lemma rule2_at_Some:
  assumes "rule2_at t = Some (rep, k)"
  shows "\<exists>n tag l r2. (n = 4 \<or> n = 3) \<and> t = 91 # tag @ l # r2 \<and> length tag = n
           \<and> list_all is_tag_char tag \<and> is_letter_az l \<and> rep = 91 # tag @ [93, l]
           \<and> k = n + 2"
proof -
  obtain r where t: "t = 91 # r" using assms
    by (cases t) (auto simp: rule2_at_def split: if_splits)
  have *: "\<exists>tag l r2. r = tag @ l # r2 \<and> length tag = n \<and> list_all is_tag_char tag
             \<and> is_letter_az l \<and> rep = 91 # tag @ [93, l] \<and> k = n + 2"
    if "rule2_n n r = Some (rep, k)" for n
    using that
    by (auto simp: rule2_n_def split: option.splits list.splits if_splits dest!: match_tag_Some)
  from assms t consider "rule2_n 4 r = Some (rep, k)" | "rule2_n 3 r = Some (rep, k)"
    by (auto simp: rule2_at_def split: option.splits)
  then show ?thesis
  proof cases
    case 1
    from * [OF this] t show ?thesis by blast
  next
    case 2
    from * [OF this] t show ?thesis by blast
  qed
qed

lemma ok2_tagged:
  assumes "length tag = n" "n = 4 \<or> n = 3" "list_all is_tag_char tag"
  shows "\<not> ok2 4 (tag @ 93 # rest)" "\<not> ok2 3 (tag @ 93 # rest)"
proof -
  have n93: "\<not> is_tag_char 93" "\<not> is_letter_az 93"
    by (simp_all add: is_tag_char_def is_letter_az_def)
  from assms(2) show "\<not> ok2 4 (tag @ 93 # rest)"
  proof
    assume "n = 4"
    then obtain a b c d where "tag = [a, b, c, d]" using assms(1)
      by (auto simp: length_Suc_conv numeral_eq_Suc)
    then show ?thesis using n93 by (simp add: numeral_eq_Suc)
  next
    assume "n = 3"
    then obtain a b c where "tag = [a, b, c]" using assms(1)
      by (auto simp: length_Suc_conv numeral_eq_Suc)
    then show ?thesis using n93 by (simp add: numeral_eq_Suc)
  qed
  from assms(2) show "\<not> ok2 3 (tag @ 93 # rest)"
  proof
    assume "n = 4"
    then obtain a b c d where "tag = [a, b, c, d]" using assms(1)
      by (auto simp: length_Suc_conv numeral_eq_Suc)
    then show ?thesis using n93 by (simp add: numeral_eq_Suc)
  next
    assume "n = 3"
    then obtain a b c where "tag = [a, b, c]" using assms(1)
      by (auto simp: length_Suc_conv numeral_eq_Suc)
    then show ?thesis using n93 by (simp add: numeral_eq_Suc)
  qed
qed

lemma ok2_re_sub:
  assumes "bracket_rule m"
  shows "ok2 n (re_sub m t) = ok2 n t"
  using ok2_takeWhile [of n "re_sub m t"] ok2_takeWhile [of n t] takeWhile_plain_re_sub [OF assms]
  by simp

lemma no_match_rule2_re_sub: "no_match rule2_at (re_sub rule2_at t)"
proof (induction t rule: length_induct)
  case (1 t)
  show ?case
  proof (cases t)
    case Nil
    then show ?thesis by simp
  next
    case (Cons c cs)
    show ?thesis
    proof (cases "rule2_at (c # cs)")
      case None
      have rest: "no_match rule2_at (re_sub rule2_at cs)" using 1 Cons by simp
      have head: "rule2_at (c # re_sub rule2_at cs) = None"
      proof (cases "c = 91")
        case True
        then show ?thesis using None
          by (simp add: rule2_at_ok ok2_re_sub [OF bracket_rules(3)])
      next
        case False
        then show ?thesis by simp
      qed
      show ?thesis using Cons None rest head by simp
    next
      case (Some a)
      obtain rep k where a: "a = (rep, k)" by (cases a)
      from rule2_at_Some [OF Some [unfolded a]]
      obtain n tag l r2 where n: "n = 4 \<or> n = 3" and t: "c # cs = 91 # tag @ l # r2"
        and len: "length tag = n" and tg: "list_all is_tag_char tag" and lt: "is_letter_az l"
        and rep: "rep = 91 # tag @ [93, l]" and k: "k = n + 2"
        by blast
      have cs: "cs = tag @ l # r2" and c: "c = 91" using t by simp_all
      have d: "drop (k - 1) cs = r2" using cs k len by simp
      have out: "re_sub rule2_at t = 91 # (tag @ [93, l]) @ re_sub rule2_at r2"
        using Cons Some a rep d by simp
      have "length r2 < length t" using Cons cs by simp
      then have rest: "no_match rule2_at (re_sub rule2_at r2)" using 1 by blast
      have ne: "list_all (\<lambda>c. c \<noteq> 91) (tag @ [93, l])"
        using tg lt by (auto simp: list_all_iff is_tag_char_def is_letter_az_def)
      have tail: "no_match rule2_at ((tag @ [93, l]) @ re_sub rule2_at r2)"
        by (rule no_match_append_plain [OF _ ne rest]) simp
      have head: "rule2_at (91 # (tag @ [93, l]) @ re_sub rule2_at r2) = None"
        unfolding rule2_at_ok using ok2_tagged [OF len n tg] by simp
      show ?thesis unfolding out using head tail by simp
    qed
  qed
qed

lemma ok2_ws: "ok2 n (re_sub ws_at t) = ok2 n t"
  using ok2_takeWhile [of n "re_sub ws_at t"] ok2_takeWhile [of n t] takeWhile_plain_ws
  by simp

lemma ws_at_Some: "py_isspace c \<Longrightarrow> re_sub ws_at (c # cs) = 32 # re_sub ws_at (dropWhile py_isspace cs)"
  by (simp add: ws_at_def dropWhile_eq_drop)

lemma ws_at_None: "\<not> py_isspace c \<Longrightarrow> re_sub ws_at (c # cs) = c # re_sub ws_at cs"
  by (simp add: ws_at_def)

lemma no_match_rule2_ws:
  "no_match rule2_at t \<Longrightarrow> no_match rule2_at (re_sub ws_at t)"
proof (induction t rule: length_induct)
  case (1 t)
  show ?case
  proof (cases t)
    case Nil
    then show ?thesis by simp
  next
    case (Cons c cs)
    show ?thesis
    proof (cases "py_isspace c")
      case True
      have "length (dropWhile py_isspace cs) < length t"
        using Cons length_dropWhile_le [of py_isspace cs] by simp
      moreover have "no_match rule2_at (dropWhile py_isspace cs)"
        using "1.prems" Cons no_match_dropWhile by auto
      ultimately have "no_match rule2_at (re_sub ws_at (dropWhile py_isspace cs))"
        using 1 by blast
      then show ?thesis using Cons True by (simp add: ws_at_Some del: re_sub.simps)
    next
      case False
      have rest: "no_match rule2_at (re_sub ws_at cs)" using 1 Cons by simp
      have head: "rule2_at (c # re_sub ws_at cs) = None"
      proof (cases "c = 91")
        case True
        then show ?thesis using "1.prems" Cons by (simp add: rule2_at_ok ok2_ws)
      next
        case False
        then show ?thesis by simp
      qed
      show ?thesis using Cons False rest head by (simp add: ws_at_None del: re_sub.simps)
    qed
  qed
qed

lemma takeWhile_plain_append_ws:
  "list_all py_isspace ws \<Longrightarrow> takeWhile plain (r @ ws) = takeWhile plain r"
proof (induction r)
  case Nil
  then show ?case using plain_not_space by (cases ws) auto
next
  case (Cons a r)
  then show ?case by simp
qed

lemma no_match_rule2_prefix:
  "list_all py_isspace ws \<Longrightarrow> no_match rule2_at (p @ ws) \<Longrightarrow> no_match rule2_at p"
proof (induction p)
  case Nil
  then show ?case by simp
next
  case (Cons c p)
  have head: "rule2_at (c # p) = None"
  proof (cases "c = 91")
    case True
    have "ok2 n p = ok2 n (p @ ws)" for n
      using ok2_takeWhile [of n p] ok2_takeWhile [of n "p @ ws"]
        takeWhile_plain_append_ws [OF Cons.prems(1)] by simp
    then show ?thesis using Cons.prems(2) True by (simp add: rule2_at_ok)
  next
    case False
    then show ?thesis by simp
  qed
  then show ?case using Cons by simp
qed

lemma rstrip_decomp: "\<exists>ws. t = py_rstrip t @ ws \<and> list_all py_isspace ws"
proof -
  have "rev t = takeWhile py_isspace (rev t) @ dropWhile py_isspace (rev t)" by simp
  then have "t = rev (dropWhile py_isspace (rev t)) @ rev (takeWhile py_isspace (rev t))"
    by (metis rev_append rev_rev_ident)
  moreover have "list_all py_isspace (rev (takeWhile py_isspace (rev t)))"
    by (simp add: list_all_iff) (meson set_takeWhileD)
  ultimately show ?thesis unfolding py_rstrip_def by blast
qed

lemma no_match_rule2_strip:
  assumes "no_match rule2_at t"
  shows "no_match rule2_at (py_strip t)"
proof -
  have l: "no_match rule2_at (py_lstrip t)"
    unfolding py_lstrip_def using assms by (rule no_match_dropWhile)
  obtain ws where dec: "py_lstrip t = py_rstrip (py_lstrip t) @ ws"
    and ws: "list_all py_isspace ws"
    using rstrip_decomp by blast
  have "no_match rule2_at (py_rstrip (py_lstrip t) @ ws)" unfolding dec [symmetric] by (rule l)
  with ws show ?thesis unfolding py_strip_def by (rule no_match_rule2_prefix)
qed

lemma ok2_from_rule1:
  "rule1_n n r \<noteq> None \<Longrightarrow> ok2 n r"
  "rule1b_n n r \<noteq> None \<Longrightarrow> ok2 n r"
proof -
  have up: "\<not> is_upper_az 93" by (simp add: is_upper_az_def)
  have l: "is_letter_az 108" "is_letter_az 74" by (simp_all add: is_letter_az_def)
  show "rule1_n n r \<noteq> None \<Longrightarrow> ok2 n r"
    unfolding rule2_n_ok [symmetric]
    by (auto simp: rule1_n_def rule2_n_def l up split: option.splits list.splits if_splits)
  show "rule1b_n n r \<noteq> None \<Longrightarrow> ok2 n r"
    unfolding rule2_n_ok [symmetric]
    by (auto simp: rule1b_n_def rule2_n_def l up split: option.splits list.splits if_splits)
qed

lemma rule1_None_of_rule2:
  assumes "rule2_at t = None"
  shows "rule1_at t = None" "rule1b_at t = None"
proof -
  show "rule1_at t = None"
  proof (cases t)
    case Nil
    then show ?thesis by (simp add: rule1_at_def)
  next
    case (Cons c r)
    show ?thesis
    proof (cases "c = 91")
      case True
      then have "\<not> ok2 4 r" "\<not> ok2 3 r" using assms Cons by (simp_all add: rule2_at_ok)
      then have "rule1_n 4 r = None" "rule1_n 3 r = None" using ok2_from_rule1(1) by blast+
      then show ?thesis using Cons by (simp add: rule1_at_def)
    next
      case False
      then show ?thesis using Cons by simp
    qed
  qed
  show "rule1b_at t = None"
  proof (cases t)
    case Nil
    then show ?thesis by (simp add: rule1b_at_def)
  next
    case (Cons c r)
    show ?thesis
    proof (cases "c = 91")
      case True
      then have "\<not> ok2 4 r" "\<not> ok2 3 r" using assms Cons by (simp_all add: rule2_at_ok)
      then have "rule1b_n 4 r = None" "rule1b_n 3 r = None" using ok2_from_rule1(2) by blast+
      then show ?thesis using Cons by (simp add: rule1b_at_def)
    next
      case False
      then show ?thesis using Cons by simp
    qed
  qed
qed

lemma no_match_rule1_of_rule2:
  "no_match rule2_at t \<Longrightarrow> no_match rule1_at t \<and> no_match rule1b_at t"
  by (induction t) (auto simp: rule1_None_of_rule2)

lemma keep_ascii: "keep_char U 91" "keep_char U 93" "keep_char U 58" "keep_char U 32"
  by (simp_all add: keep_char_def category_def ascii_category_def)

lemma good_ascii: "good U 91" "good U 93" "good U 58" "good U 32"
  by (simp_all add: good_def keep_ascii)

lemma filter_chars_filter: "filter_chars U t = filter (keep_char U) t"
proof -
  have "category U c = ''Zs'' \<Longrightarrow> keep_char U c" for c
    by (simp add: keep_char_def)
  then show ?thesis
    unfolding filter_chars_def by (induction t) auto
qed

lemma ocr_replacements_append:
  "ocr_replacements (xs @ ys) = ocr_replacements xs @ ocr_replacements ys"
  by (simp add: ocr_replacements_def replace_char_def remove_char_def)

lemma ocr_replacements_single: "ocr_replacements [c] = replace1 c"
proof -
  consider "c = 124" | "c = 40" | "c = 41" | "c = 64258" | "c = 64257" | "c = 65125"
    | "c = 65109"
    | "c \<noteq> 124 \<and> c \<noteq> 40 \<and> c \<noteq> 41 \<and> c \<noteq> 64258 \<and> c \<noteq> 64257 \<and> c \<noteq> 65125
       \<and> c \<noteq> 65109"
    by blast
  then show ?thesis
    by cases (simp_all add: ocr_replacements_def replace_char_def remove_char_def replace1_def)
qed

lemma ocr_replacements_concat: "ocr_replacements t = concat (map replace1 t)"
proof (induction t)
  case Nil
  show ?case by (simp add: ocr_replacements_def replace_char_def remove_char_def)
next
  case (Cons c cs)
  have "ocr_replacements (c # cs) = ocr_replacements [c] @ ocr_replacements cs"
    using ocr_replacements_append [of "[c]" cs] by simp
  then show ?case using Cons by (simp add: ocr_replacements_single)
qed

lemma good_replace1: "keep_char U c \<Longrightarrow> list_all (good U) (replace1 c)"
proof -
  assume k: "keep_char U c"
  consider "c = 124" | "c = 40" | "c = 41" | "c = 64258" | "c = 64257" | "c = 65125"
    | "c = 65109"
    | "c \<noteq> 124 \<and> c \<noteq> 40 \<and> c \<noteq> 41 \<and> c \<noteq> 64258 \<and> c \<noteq> 64257 \<and> c \<noteq> 65125
       \<and> c \<noteq> 65109"
    by blast
  then show ?thesis
    using k good_ascii [of U] by cases (simp_all add: replace1_def good_def)
qed

lemma good_replacements:
  assumes "list_all (keep_char U) t"
  shows "list_all (good U) (ocr_replacements t)"
  unfolding ocr_replacements_concat using assms
  by (induction t) (simp_all add: good_replace1)

lemma set_re_sub:
  assumes "\<And>t rep n. m t = Some (rep, n) \<Longrightarrow> set rep \<subseteq> set t \<union> X"
  shows "set (re_sub m t) \<subseteq> set t \<union> X"
proof (induction t rule: length_induct)
  case (1 t)
  show ?case
  proof (cases t)
    case Nil
    then show ?thesis by simp
  next
    case (Cons c cs)
    show ?thesis
    proof (cases "m (c # cs)")
      case None
      then show ?thesis using 1 Cons by auto
    next
      case (Some a)
      obtain rep n where a: "a = (rep, n)" by (cases a)
      have r: "set rep \<subseteq> set (c # cs) \<union> X" using assms Some a by blast
      have "length (drop (n - 1) cs) < length t" using Cons by simp
      then have "set (re_sub m (drop (n - 1) cs)) \<subseteq> set (drop (n - 1) cs) \<union> X"
        using 1 by blast
      moreover have "set (drop (n - 1) cs) \<subseteq> set cs" by (rule set_drop_subset)
      ultimately show ?thesis using Cons Some a r by auto
    qed
  qed
qed

lemma rule_n_set:
  "rule1_n n r = Some (rep, k) \<Longrightarrow> set rep \<subseteq> set r \<union> {91, 93}"
  "rule1b_n n r = Some (rep, k) \<Longrightarrow> set rep \<subseteq> set r \<union> {91, 93}"
  "rule2_n n r = Some (rep, k) \<Longrightarrow> set rep \<subseteq> set r \<union> {91, 93}"
  by (auto simp: rule1_n_def rule1b_n_def rule2_n_def
      split: option.splits list.splits if_splits dest!: match_tag_Some)

lemma rule_at_set:
  "rule1_at t = Some (rep, k) \<Longrightarrow> set rep \<subseteq> set t \<union> {91, 93}"
  "rule1b_at t = Some (rep, k) \<Longrightarrow> set rep \<subseteq> set t \<union> {91, 93}"
  "rule2_at t = Some (rep, k) \<Longrightarrow> set rep \<subseteq> set t \<union> {91, 93}"
  unfolding rule1_at_def rule1b_at_def rule2_at_def
  by (auto split: list.splits if_splits option.splits dest!: rule_n_set)

lemma set_re_sub_rules:
  "set (re_sub rule1_at t) \<subseteq> set t \<union> {91, 93}"
  "set (re_sub rule1b_at t) \<subseteq> set t \<union> {91, 93}"
  "set (re_sub rule2_at t) \<subseteq> set t \<union> {91, 93}"
proof -
  show "set (re_sub rule1_at t) \<subseteq> set t \<union> {91, 93}"
    by (rule set_re_sub) (rule rule_at_set(1))
  show "set (re_sub rule1b_at t) \<subseteq> set t \<union> {91, 93}"
    by (rule set_re_sub) (rule rule_at_set(2))
  show "set (re_sub rule2_at t) \<subseteq> set t \<union> {91, 93}"
    by (rule set_re_sub) (rule rule_at_set(3))
qed

lemma good_re_sub_rules:
  assumes "list_all (good U) t"
  shows "list_all (good U) (re_sub rule1_at t)" "list_all (good U) (re_sub rule1b_at t)"
    "list_all (good U) (re_sub rule2_at t)"
  using assms set_re_sub_rules [of t] good_ascii(1,2) [of U]
  unfolding list_all_iff by auto

lemma good_ws:
  assumes "list_all (good U) t"
  shows "list_all (good U) (re_sub ws_at t)"
proof -
  have "set (re_sub ws_at t) \<subseteq> set t \<union> {32}"
    by (rule set_re_sub) (auto simp: ws_at_def split: list.splits if_splits)
  then show ?thesis using assms good_ascii(4) [of U] unfolding list_all_iff by auto
qed

lemma set_strip: "set (py_strip t) \<subseteq> set t"
proof
  fix x
  assume "x \<in> set (py_strip t)"
  then have "x \<in> set (dropWhile py_isspace (rev (dropWhile py_isspace t)))"
    by (simp add: py_strip_def py_rstrip_def py_lstrip_def)
  then have "x \<in> set (rev (dropWhile py_isspace t))" by (rule set_dropWhileD)
  then have "x \<in> set (dropWhile py_isspace t)" by simp
  then show "x \<in> set t" by (rule set_dropWhileD)
qed

lemma good_strip: "list_all (good U) t \<Longrightarrow> list_all (good U) (py_strip t)"
  using set_strip [of t] unfolding list_all_iff by auto

lemma good_filter_id: "list_all (good U) t \<Longrightarrow> filter_chars U t = t"
  unfolding filter_chars_filter by (induction t) (auto simp: good_def)

lemma good_replace1_id: "good U c \<Longrightarrow> replace1 c = [c]"
  by (simp add: good_def replace1_def)

lemma good_replacements_id: "list_all (good U) t \<Longrightarrow> ocr_replacements t = t"
  unfolding ocr_replacements_concat
  by (induction t) (auto dest: good_replace1_id)

lemma re_sub_ws_hd:
  "(case dropWhile py_isspace cs of [] \<Rightarrow> True | d # _ \<Rightarrow> \<not> py_isspace d)"
  "(case re_sub ws_at (dropWhile py_isspace cs) of [] \<Rightarrow> True | d # _ \<Rightarrow> \<not> py_isspace d)"
proof -
  show a: "(case dropWhile py_isspace cs of [] \<Rightarrow> True | d # _ \<Rightarrow> \<not> py_isspace d)"
  proof (cases "dropWhile py_isspace cs")
    case Nil
    show ?thesis unfolding Nil by simp
  next
    case (Cons d ds)
    then have "dropWhile py_isspace cs \<noteq> []" by simp
    from hd_dropWhile [OF this] show ?thesis unfolding Cons by simp
  qed
  show "(case re_sub ws_at (dropWhile py_isspace cs) of [] \<Rightarrow> True | d # _ \<Rightarrow> \<not> py_isspace d)"
  proof (cases "dropWhile py_isspace cs")
    case Nil
    show ?thesis unfolding Nil by simp
  next
    case (Cons d ds)
    then have "\<not> py_isspace d" using a by simp
    then show ?thesis using Cons by (simp add: ws_at_None del: re_sub.simps)
  qed
qed

lemma spaced_ws: "spaced (re_sub ws_at t)"
proof (induction t rule: length_induct)
  case (1 t)
  show ?case
  proof (cases t)
    case Nil
    then show ?thesis by simp
  next
    case (Cons c cs)
    show ?thesis
    proof (cases "py_isspace c")
      case True
      have "length (dropWhile py_isspace cs) < length t"
        using Cons length_dropWhile_le [of py_isspace cs] by simp
      then have "spaced (re_sub ws_at (dropWhile py_isspace cs))" using 1 by blast
      moreover have "py_isspace 32" by (simp add: py_isspace_def)
      ultimately show ?thesis
        using Cons True re_sub_ws_hd(2) [of cs] by (simp add: ws_at_Some del: re_sub.simps)
    next
      case False
      then show ?thesis using 1 Cons by (simp add: ws_at_None del: re_sub.simps)
    qed
  qed
qed

lemma spaced_ws_id: "spaced t \<Longrightarrow> re_sub ws_at t = t"
proof (induction t)
  case Nil
  then show ?case by simp
next
  case (Cons c cs)
  show ?case
  proof (cases "py_isspace c")
    case True
    then have "dropWhile py_isspace cs = cs" using Cons.prems by (cases cs) auto
    then show ?thesis using True Cons by (simp add: ws_at_Some del: re_sub.simps)
  next
    case False
    then show ?thesis using Cons by (simp add: ws_at_None del: re_sub.simps)
  qed
qed

lemma spaced_dropWhile: "spaced t \<Longrightarrow> spaced (dropWhile P t)"
  by (induction t) auto

lemma spaced_prefix: "spaced (p @ q) \<Longrightarrow> spaced p"
proof (induction p)
  case Nil
  then show ?case by simp
next
  case (Cons c p)
  then show ?case by (cases p) (auto split: if_splits)
qed

lemma spaced_strip: "spaced t \<Longrightarrow> spaced (py_strip t)"
proof -
  assume "spaced t"
  then have l: "spaced (py_lstrip t)" unfolding py_lstrip_def by (rule spaced_dropWhile)
  obtain ws where dec: "py_lstrip t = py_rstrip (py_lstrip t) @ ws"
    using rstrip_decomp by blast
  have "spaced (py_rstrip (py_lstrip t) @ ws)" unfolding dec [symmetric] by (rule l)
  then show ?thesis unfolding py_strip_def by (rule spaced_prefix)
qed

lemma strip_idem: "py_strip (py_strip t) = py_strip t"
proof -
  let ?z = "py_lstrip t"
  let ?y = "py_rstrip ?z"
  obtain ws where dec: "?z = ?y @ ws"
    using rstrip_decomp by blast
  have l: "py_lstrip ?y = ?y"
  proof (cases ?y)
    case Nil
    show ?thesis unfolding Nil by (simp add: py_lstrip_def)
  next
    case (Cons d ds)
    have z: "dropWhile py_isspace t = d # (ds @ ws)"
      using dec [unfolded Cons] by (simp add: py_lstrip_def)
    then have "dropWhile py_isspace t \<noteq> []" by simp
    from hd_dropWhile [OF this] have "\<not> py_isspace d" unfolding z by simp
    then show ?thesis unfolding Cons by (simp add: py_lstrip_def)
  qed
  have r: "py_rstrip ?y = ?y" unfolding py_rstrip_def by simp
  show ?thesis unfolding py_strip_def l r ..
qed

text \<open>
  Claim C8. The OCR cleaning pass is idempotent: cleaning a text that has already been
  cleaned changes nothing, for every input text and whatever the Unicode database says
  about the characters outside ASCII.
\<close>

theorem clean_ocr_text_idempotent:
  "clean_ocr_text U (clean_ocr_text U text) = clean_ocr_text U text"
proof -
  define a where "a = ocr_replacements (filter_chars U text)"
  define v where "v = re_sub rule2_at (re_sub rule1b_at (re_sub rule1_at a))"
  define u where "u = py_strip (re_sub ws_at v)"
  have u: "clean_ocr_text U text = u"
    by (simp add: clean_ocr_text_def u_def v_def a_def)
  have "list_all (keep_char U) (filter_chars U text)"
    unfolding filter_chars_filter by (simp add: list_all_iff)
  then have "list_all (good U) a" unfolding a_def by (rule good_replacements)
  then have "list_all (good U) v"
    unfolding v_def by (intro good_re_sub_rules)
  then have good: "list_all (good U) u"
    unfolding u_def by (intro good_strip good_ws)
  have "no_match rule2_at v" unfolding v_def by (rule no_match_rule2_re_sub)
  then have n2: "no_match rule2_at u"
    unfolding u_def by (intro no_match_rule2_strip no_match_rule2_ws)
  then have n1: "no_match rule1_at u" and n1b: "no_match rule1b_at u"
    using no_match_rule1_of_rule2 by blast+
  have sp: "spaced u" unfolding u_def by (intro spaced_strip spaced_ws)
  have "clean_ocr_text U u = py_strip u"
    unfolding clean_ocr_text_def
    by (simp only: good_filter_id [OF good] good_replacements_id [OF good]
        no_match_re_sub [OF n1] no_match_re_sub [OF n1b] no_match_re_sub [OF n2]
        spaced_ws_id [OF sp])
  also have "\<dots> = u" unfolding u_def by (rule strip_idem)
  finally show ?thesis unfolding u .
qed

section \<open>Properties of the chat parser\<close>

declare name_start_loop.simps [simp del]

lemma match_tag_numeral [simp]:
  "match_tag (numeral k) [] = None"
  "match_tag (numeral k) (c # cs) =
     (if is_tag_char c
      then (case match_tag (pred_numeral k) cs of None \<Rightarrow> None | Some (tag, r) \<Rightarrow> Some (c # tag, r))
      else None)"
  by (simp_all add: numeral_eq_Suc)

lemma match_tagp_numeral [simp]:
  "match_tagp (numeral k) [] = None"
  "match_tagp (numeral k) (c # cs) =
     (if is_tagp_char c
      then (case match_tagp (pred_numeral k) cs of None \<Rightarrow> None | Some (tag, r) \<Rightarrow> Some (c # tag, r))
      else None)"
  by (simp_all add: numeral_eq_Suc)

lemma name_end_loop_numeral [simp]:
  "name_end_loop t (numeral k) =
     (if pred_numeral k < length t \<and> (t ! pred_numeral k = 32 \<or> t ! pred_numeral k = 58)
      then name_end_loop t (pred_numeral k) else numeral k)"
proof -
  have n: "numeral k = Suc (pred_numeral k)" by (simp add: numeral_eq_Suc)
  have "name_end_loop t (Suc (pred_numeral k)) =
     (if pred_numeral k < length t \<and> (t ! pred_numeral k = 32 \<or> t ! pred_numeral k = 58)
      then name_end_loop t (pred_numeral k) else Suc (pred_numeral k))"
    by (rule name_end_loop.simps(2))
  then show ?thesis unfolding n [symmetric] .
qed

lemmas char_defs =
  is_tag_char_def is_upper_az_def is_letter_az_def py_isspace_def is_tagp_char_def
  ci_eq_def ascii_lower_char_def is_word_def

lemmas clean_defs =
  clean_ocr_text_def filter_chars_def keep_char_def category_def ascii_category_def
  ocr_replacements_def replace_char_def remove_char_def
  rule1_at_def rule1_n_def rule1b_at_def rule1b_n_def rule2_at_def rule2_n_def ws_at_def
  py_strip_def py_lstrip_def py_rstrip_def

lemma c7_clean:
  "clean_ocr_text U (S ''[F28AlWATUZI scientist'') = S ''[F28A]WATUZI scientist''"
  by (simp add: S_def clean_defs char_defs)

lemma c7_clean_name:
  "clean_ocr_text U (S ''WATUZI'') = S ''WATUZI''"
  by (simp add: S_def clean_defs char_defs)

lemmas match_defs =
  kw_match_at_def end_guard_def title_keywords_def kw_alt_def after_name_def tag_match_at_def

lemma c7_positions:
  "title_positions U (S ''[F28A]WATUZI scientist'') = [(13, 22, S ''scientist'')]"
  by (simp add: title_positions_def S_def match_defs char_defs sort_triples_def py_lower_def
      is_ascii_def)

lemma c7_tag:
  "tag_finditer U 0 (S ''[F28A]WATUZI scientist'') =
     [(0, 22, S ''F28A'', S ''WATUZI'', S ''scientist'', S ''[F28A]WATUZI scientist'')]"
  by (simp add: S_def match_defs char_defs)

lemmas strip_defs = py_strip_def py_lstrip_def py_rstrip_def py_isspace_def

lemma c7_joined:
  "py_join [32] (map py_strip (filter (\<lambda>line. py_strip line \<noteq> [])
      (split_on 10 (py_strip (S ''[F28A]WATUZI scientist''))))) = S ''[F28A]WATUZI scientist''"
  by (simp add: S_def strip_defs)

lemma c7_name:
  "normalize_player_name U (S ''WATUZI'') = S ''WATUZI''"
  by (simp add: normalize_player_name_def S_def circled_digit_def is_letter_az_def split_last_def
      strip_defs Let_def)

lemma c7_fields:
  "normalize_tag (S ''F28A'') = S ''F28A''"
  "py_strip (S ''WATUZI'') = S ''WATUZI''"
  "rev (dropWhile (\<lambda>c. c = 58 \<or> py_isspace c) (rev (S ''WATUZI''))) = S ''WATUZI''"
  "py_lower U (py_strip (S ''scientist'')) = S ''scientist''"
  "S ''WATUZI'' \<noteq> []" "S ''scientist'' \<noteq> []" "S ''[F28AlWATUZI scientist'' \<noteq> []"
  by (simp_all add: S_def normalize_tag_def circled_digit_def strip_defs py_lower_def is_ascii_def
      ascii_lower_char_def Let_def)

lemma c7_tagged_step:
  "tagged_step U ([], [])
     (0, 22, S ''F28A'', S ''WATUZI'', S ''scientist'', S ''[F28A]WATUZI scientist'') =
   ([\<lparr> cm_alliance_tag = S ''F28A'', cm_player_name = S ''WATUZI'',
       cm_message = S ''scientist'', cm_timestamp = None,
       cm_raw_text = S ''[F28A]WATUZI scientist'' \<rparr>], [(0, 22)])"
  by (simp add: tagged_step_def Let_def c7_fields c7_clean_name c7_name)

lemma c7_untagged_step:
  "untagged_step U t ps [(0, 22)] msgs (13, 22, title) = msgs"
  by (simp add: untagged_step_def)

lemma c7_clean_message:
  "clean_message U (S ''scientist'') = S ''scientist''"
  by (simp add: clean_message_def S_def py_lower_def is_ascii_def ascii_lower_char_def Let_def
      strip_defs)

lemma c7_unique:
  "unique_messages U []
     [\<lparr> cm_alliance_tag = S ''F28A'', cm_player_name = S ''WATUZI'',
        cm_message = S ''scientist'', cm_timestamp = None,
        cm_raw_text = S ''[F28A]WATUZI scientist'' \<rparr>] =
     [\<lparr> cm_alliance_tag = S ''F28A'', cm_player_name = S ''WATUZI'',
        cm_message = S ''scientist'', cm_timestamp = None,
        cm_raw_text = S ''[F28A]WATUZI scientist'' \<rparr>]"
  by (simp add: Let_def c7_clean_message)

text \<open>
  Claim C7. For the raw OCR text \<open>[F28AlWATUZI scientist\<close>, in which the closing bracket
  of the tag was read as a lower-case \<open>l\<close>, the cleaning pass yields
  \<open>[F28A]WATUZI scientist\<close>, and \<open>parse_messages\<close> returns exactly one message, with
  alliance tag \<open>F28A\<close>, player name \<open>WATUZI\<close> and message \<open>scientist\<close>.
\<close>

theorem parse_messages_bracket_loss:
  "clean_ocr_text U (S ''[F28AlWATUZI scientist'') = S ''[F28A]WATUZI scientist''
   \<and> parse_messages U (S ''[F28AlWATUZI scientist'') =
       [\<lparr> cm_alliance_tag = S ''F28A'', cm_player_name = S ''WATUZI'',
          cm_message = S ''scientist'', cm_timestamp = None,
          cm_raw_text = S ''[F28A]WATUZI scientist'' \<rparr>]"
  by (simp add: parse_messages_def Let_def c7_fields c7_clean c7_joined c7_positions c7_tag
      c7_tagged_step c7_untagged_step c7_unique c7_clean_message)

end
